theory Spec2Isabelle
  imports Complex_Main "HOL-Library.Multiset" "HOL-Library.Sublist"
begin

section \<open>Data model of the game server (src/server/index.js)\<close>

text \<open>
  JavaScript numbers are modelled as mathematical reals (\<open>calls\<close> and \<open>promptCount\<close>, which
  only ever hold integers, as \<open>int\<close> and \<open>nat\<close>); IEEE rounding is not modelled.  The one place
  where the code can leave the finite numbers, the division in \<open>computeSharpeRatio\<close>, is
  modelled explicitly (type \<open>jsnum\<close>).

  A plain JavaScript object that the code enumerates (\<open>Object.entries\<close>, \<open>Object.values\<close>,
  \<open>Object.keys\<close>) is an association list in insertion order: assigning to an existing key
  replaces the value in place, assigning to a new key appends.  (JavaScript moves keys that
  are canonical array indices to the front; no result below depends on the enumeration
  order.)  Objects that are only read and written by key are maps.  Both hold the object's
  own properties.

  All these objects are created by \<open>{}\<close>, so a read \<open>obj[k]\<close> also sees the properties
  inherited from \<open>Object.prototype\<close> (\<open>js_get\<close>, \<open>obj_read\<close>): for one of its twelve
  property names that is not an own key the read yields a function (for \<open>__proto__\<close> the
  prototype object), which is truthy and, used as a property key, is converted to a string
  (\<open>inherited_key\<close>).  An assignment \<open>obj['__proto__'] = v\<close> creates no own property
  (\<open>obj_assign\<close>, \<open>map_assign\<close>) and \<open>delete obj['__proto__']\<close> removes none
  (\<open>map_delete\<close>); an own key is therefore never \<open>__proto__\<close>, and a write whose key comes
  from \<open>Object.entries\<close> is a plain \<open>obj_set\<close>.  The one assignment of an object under a
  key chosen by the client, \<open>roomsData[room] = roomData\<close>, makes \<open>roomData\<close> the prototype
  of \<open>roomsData\<close> when \<open>room\<close> is \<open>__proto__\<close>, and \<open>roomsData['__proto__']\<close> then reads
  it: the map \<open>roomsData\<close> holds that prototype under the key \<open>__proto__\<close>.  A read of
  \<open>roomsData\<close> that finds no room but an inherited value (a function, or a field of such a
  prototype) needs a reference to a room that was never created; the handlers' own
  references point to rooms they created, and such a read is treated as finding nothing.
\<close>

type_synonym 'a obj = "(string \<times> 'a) list"

fun obj_set :: "string \<Rightarrow> 'a \<Rightarrow> 'a obj \<Rightarrow> 'a obj" where
  "obj_set k v [] = [(k, v)]"
| "obj_set k v ((k', v') # kvs) =
     (if k' = k then (k, v) # kvs else (k', v') # obj_set k v kvs)"

definition obj_get :: "'a obj \<Rightarrow> string \<Rightarrow> 'a option" where
  "obj_get kvs k = map_of kvs k"

text \<open>\<open>Object.getOwnPropertyNames(Object.prototype)\<close> of the runtime (Node.js).\<close>

definition object_prototype_keys :: "string list" where
  "object_prototype_keys =
     [''constructor'', ''__defineGetter__'', ''__defineSetter__'', ''hasOwnProperty'',
      ''__lookupGetter__'', ''__lookupSetter__'', ''isPrototypeOf'', ''propertyIsEnumerable'',
      ''toString'', ''valueOf'', ''__proto__'', ''toLocaleString'']"

text \<open>
  \<open>String(Object.prototype[k])\<close>: the property key that the inherited value denotes.
\<close>

definition inherited_key :: "string \<Rightarrow> string" where
  "inherited_key k =
     (if k = ''__proto__'' then ''[object Object]''
      else ''function '' @ (if k = ''constructor'' then ''Object'' else k)
             @ ''() { [native code] }'')"

datatype 'a js_value = Own 'a | Inherited string | Undefined

text \<open>The read \<open>obj[k]\<close>, of a map and of an association list.\<close>

definition js_get :: "(string \<rightharpoonup> 'a) \<Rightarrow> string \<Rightarrow> 'a js_value" where
  "js_get m k =
     (case m k of
        Some v \<Rightarrow> Own v
      | None \<Rightarrow> if k \<in> set object_prototype_keys then Inherited k else Undefined)"

definition obj_read :: "'a obj \<Rightarrow> string \<Rightarrow> 'a js_value" where
  "obj_read kvs k = js_get (map_of kvs) k"

text \<open>The assignment \<open>obj[k] = v\<close> and \<open>delete obj[k]\<close>.\<close>

definition obj_assign :: "string \<Rightarrow> 'a \<Rightarrow> 'a obj \<Rightarrow> 'a obj" where
  "obj_assign k v kvs = (if k = ''__proto__'' then kvs else obj_set k v kvs)"

definition map_assign :: "string \<Rightarrow> 'a \<Rightarrow> (string \<rightharpoonup> 'a) \<Rightarrow> (string \<rightharpoonup> 'a)" where
  "map_assign k v m = (if k = ''__proto__'' then m else m(k \<mapsto> v))"

definition map_delete :: "string \<Rightarrow> (string \<rightharpoonup> 'a) \<Rightarrow> (string \<rightharpoonup> 'a)" where
  "map_delete k m = (if k = ''__proto__'' then m else m(k := None))"

text \<open>
  A room read from \<open>adminToRoom\<close> or \<open>playerToRoom\<close>: \<open>None\<close> when it is falsy (undefined
  or the empty string), otherwise the key under which \<open>roomsData[room]\<close> looks it up.
\<close>

definition room_key :: "string js_value \<Rightarrow> string option" where
  "room_key room =
     (case room of
        Own r \<Rightarrow> if r = [] then None else Some r
      | Inherited k \<Rightarrow> Some (inherited_key k)
      | Undefined \<Rightarrow> None)"

datatype prompt_type = SellCall | BuyCall

datatype jsnum = Finite real | NaN

datatype error = TypeError

record position =
  cash :: real
  calls :: int
  portfolioHistory :: "real list"
  sharpe :: "jsnum option"

record room_data =
  admin :: string
  usernames :: "string obj"
  started :: bool
  gameOver :: bool
  positions :: "position obj"
  bids :: "real obj"
  promptCount :: nat
  strikePrice :: real
  currentPromptType :: prompt_type
  marketPrice :: real

record server =
  rooms :: "string set"
  adminToRoom :: "string \<rightharpoonup> string"
  playerToRoom :: "string \<rightharpoonup> string"
  roomToAdmin :: "string \<rightharpoonup> string"
  roomsData :: "string \<rightharpoonup> room_data"

definition initRoomData :: "string \<Rightarrow> room_data" where
  "initRoomData adminID =
     \<lparr> admin = adminID, usernames = [], started = False, gameOver = False,
       positions = [], bids = [], promptCount = 0, strikePrice = 100,
       currentPromptType = SellCall, marketPrice = 0 \<rparr>"

definition initServer :: server where
  "initServer = \<lparr> rooms = {}, adminToRoom = Map.empty, playerToRoom = Map.empty,
                   roomToAdmin = Map.empty, roomsData = Map.empty \<rparr>"

section \<open>computeSharpeRatio\<close>

text \<open>
  The \<open>for\<close> loop that fills \<open>returns\<close>.  In IEEE arithmetic a zero \<open>history[i - 1]\<close> makes
  the quotient \<open>\<plusminus>Infinity\<close> or \<open>NaN\<close>; every later sum, square and quotient of the function
  then yields \<open>NaN\<close>, both comparisons with the threshold and with \<open>0\<close> are false, and the
  function returns \<open>NaN\<close>.  The loop therefore returns \<open>None\<close> at a zero denominator.
\<close>

function returns_loop :: "real list \<Rightarrow> nat \<Rightarrow> real list \<Rightarrow> real list option" where
  "returns_loop history i returns =
     (if i < length history then
        (if history ! (i - 1) = 0 then None
         else returns_loop history (i + 1)
                (returns @ [(history ! i - history ! (i - 1)) / history ! (i - 1)]))
      else Some returns)"
  by pat_completeness auto
termination
  by (relation "measure (\<lambda>(history, i, returns). length history - i)") auto

declare returns_loop.simps [simp del]

definition STDEV_THRESHOLD :: real where
  "STDEV_THRESHOLD = 1 / 10 ^ 10"

definition computeSharpeRatio :: "real list \<Rightarrow> jsnum" where
  "computeSharpeRatio history =
     (if length history < 2 then Finite 0
      else case returns_loop history 1 [] of
        None \<Rightarrow> NaN
      | Some returns \<Rightarrow>
          (let avgR = foldl (+) 0 returns / real (length returns);
               rfStep = 0.05 / 60;
               sqDiffs = map (\<lambda>r. (r - avgR) ^ 2) returns;
               variance = foldl (+) 0 sqDiffs /
                 (if real (length returns) - 1 = 0 then 1 else real (length returns) - 1);
               stdev = sqrt variance
           in if stdev < STDEV_THRESHOLD then Finite 0
              else if stdev = 0 then Finite 0
              else Finite ((avgR - rfStep) / stdev)))"

section \<open>The per-round valuation step\<close>

definition applyRiskFreeAndRecord :: "room_data \<Rightarrow> room_data" where
  "applyRiskFreeAndRecord data =
     (let rfStep = 0.05 / 60 in
      data\<lparr>positions :=
        map (\<lambda>(userID, pos).
               let pos1 = pos\<lparr>cash := cash pos * (1 + rfStep)\<rparr>;
                   portfolioVal = cash pos1 + real_of_int (calls pos1) * marketPrice data
               in (userID, pos1\<lparr>portfolioHistory := portfolioHistory pos1 @ [portfolioVal]\<rparr>))
            (positions data)\<rparr>)"

definition broadcastPositionsAndSharpe :: "room_data \<Rightarrow> room_data" where
  "broadcastPositionsAndSharpe data =
     (let data1 = applyRiskFreeAndRecord data in
      data1\<lparr>positions :=
        map (\<lambda>(uid, pos). (uid, pos\<lparr>sharpe := Some (computeSharpeRatio (portfolioHistory pos))\<rparr>))
            (positions data1)\<rparr>)"

section \<open>processRoundBids\<close>

text \<open>
  \<open>Array.prototype.sort\<close> with a comparator is a stable sort: \<open>a\<close> stays before \<open>b\<close> unless
  the comparator is positive.  Insertion from the right is the stable sort.
\<close>

fun insert_by :: "('a \<Rightarrow> 'a \<Rightarrow> real) \<Rightarrow> 'a \<Rightarrow> 'a list \<Rightarrow> 'a list" where
  "insert_by cmp x [] = [x]"
| "insert_by cmp x (y # ys) =
     (if cmp x y \<le> 0 then x # y # ys else y # insert_by cmp x ys)"

definition js_sort :: "('a \<Rightarrow> 'a \<Rightarrow> real) \<Rightarrow> 'a list \<Rightarrow> 'a list" where
  "js_sort cmp xs = foldr (insert_by cmp) xs []"

definition sortBids :: "prompt_type \<Rightarrow> real obj \<Rightarrow> real obj" where
  "sortBids promptType allBids =
     (if promptType = SellCall then js_sort (\<lambda>a b. snd b - snd a) allBids
      else js_sort (\<lambda>a b. snd a - snd b) allBids)"

text \<open>\<open>Math.ceil(sorted.length / 2) - 1\<close>\<close>

definition medianIndex :: "'a list \<Rightarrow> int" where
  "medianIndex srt = \<lceil>real (length srt) / 2\<rceil> - 1"

text \<open>\<open>sorted[i]\<close>: \<open>undefined\<close> outside the array, and \<open>undefined[1]\<close> throws.\<close>

definition js_index :: "'a list \<Rightarrow> int \<Rightarrow> 'a option" where
  "js_index xs i = (if 0 \<le> i \<and> i < int (length xs) then Some (xs ! nat i) else None)"

datatype trade_result = Executed real | NotExecuted

definition newPosition :: position where
  "newPosition = \<lparr> cash = 0, calls = 0, portfolioHistory = [], sharpe = None \<rparr>"

text \<open>
  The body of \<open>sorted.forEach\<close>, on the positions and the trade results built so far.
  \<open>!data.positions[userID]\<close> is false for an inherited property too: no position is created
  then, and \<open>pos.cash\<close> and \<open>pos.calls\<close> are written onto the inherited object, outside
  the room.
\<close>

definition executeBid ::
  "prompt_type \<Rightarrow> real \<Rightarrow> string \<times> real \<Rightarrow> position obj \<times> trade_result obj
     \<Rightarrow> position obj \<times> trade_result obj" where
  "executeBid promptType medianPrice bid acc =
     (case bid of (userID, bidPx) \<Rightarrow> case acc of (poss, tradeResults) \<Rightarrow>
      let execute = (if promptType = SellCall then bidPx \<ge> medianPrice
                     else bidPx \<le> medianPrice)
      in if execute then
           (case obj_read poss userID of
              Inherited k \<Rightarrow> (poss, obj_set userID (Executed bidPx) tradeResults)
            | v \<Rightarrow>
               let pos = (case v of Own p \<Rightarrow> p | _ \<Rightarrow> newPosition);
                   pos' = (if promptType = SellCall
                           then pos\<lparr>cash := cash pos - bidPx, calls := calls pos + 1\<rparr>
                           else pos\<lparr>cash := cash pos + bidPx, calls := calls pos - 1\<rparr>)
               in (obj_set userID pos' poss, obj_set userID (Executed bidPx) tradeResults))
         else (poss, obj_set userID NotExecuted tradeResults))"

definition executeBids ::
  "prompt_type \<Rightarrow> real \<Rightarrow> real obj \<Rightarrow> position obj \<Rightarrow> position obj \<times> trade_result obj" where
  "executeBids promptType medianPrice srt poss =
     fold (executeBid promptType medianPrice) srt (poss, [])"

text \<open>
  \<open>processRoundBids\<close> on the room's data; the result carries the emitted \<open>tradeResults\<close>
  (\<open>None\<close> when nothing is emitted).
\<close>

definition processRoundBids :: "room_data \<Rightarrow> error + (trade_result obj option \<times> room_data)" where
  "processRoundBids data =
     (let allBids = bids data in
      if allBids = [] then Inr (None, broadcastPositionsAndSharpe data)
      else
        let srt = sortBids (currentPromptType data) allBids in
        case js_index srt (medianIndex srt) of
          None \<Rightarrow> Inl TypeError
        | Some m \<Rightarrow>
            let medianPrice = snd m;
                (poss, tradeResults) =
                   executeBids (currentPromptType data) medianPrice srt (positions data);
                data1 = data\<lparr>positions := poss, marketPrice := medianPrice\<rparr>;
                data2 = broadcastPositionsAndSharpe data1
            in Inr (Some tradeResults, data2\<lparr>bids := []\<rparr>))"

section \<open>The message handlers\<close>

datatype reply = RoomNameTaken | RoomStartSuccess
  | NoSuchRoom | GameAlreadyStarted | UsernameTaken | JoinApproved

definition room_start :: "server \<Rightarrow> string \<Rightarrow> string \<Rightarrow> reply option \<times> server" where
  "room_start s room userID =
     (if room = [] then (None, s)
      else if room \<in> rooms s then (Some RoomNameTaken, s)
      else (Some RoomStartSuccess,
            s\<lparr>rooms := insert room (rooms s),
              adminToRoom := map_assign userID room (adminToRoom s),
              roomToAdmin := map_assign room userID (roomToAdmin s),
              roomsData := (roomsData s)(room \<mapsto> initRoomData userID)\<rparr>))"

definition startGame :: "server \<Rightarrow> string \<Rightarrow> server" where
  "startGame s adminID =
     (case room_key (js_get (adminToRoom s) adminID) of
        None \<Rightarrow> s
      | Some room \<Rightarrow>
          (case roomsData s room of
            None \<Rightarrow> s
          | Some data \<Rightarrow>
              if started data then s
              else
                let data1 = data\<lparr>started := True\<rparr>;
                    data2 = data1\<lparr>positions :=
                      map (\<lambda>(uid, pos).
                             (uid, pos\<lparr>portfolioHistory := portfolioHistory pos @
                                [cash pos + real_of_int (calls pos) * marketPrice data1]\<rparr>))
                          (positions data1)\<rparr>;
                    data3 = data2\<lparr>promptCount := 1, currentPromptType := SellCall\<rparr>
                in s\<lparr>roomsData := (roomsData s)(room \<mapsto> data3)\<rparr>))"

text \<open>
  \<open>roundUpdate\<close> does not test \<open>data\<close>: when the admin's room has no data,
  \<open>processRoundBids\<close> throws on \<open>data.bids\<close>.
\<close>

definition roundUpdate :: "server \<Rightarrow> string \<Rightarrow> error + (trade_result obj option \<times> server)" where
  "roundUpdate s adminID =
     (case room_key (js_get (adminToRoom s) adminID) of
        None \<Rightarrow> Inr (None, s)
      | Some room \<Rightarrow>
          (case roomsData s room of
            None \<Rightarrow> Inl TypeError
          | Some data \<Rightarrow>
              (case processRoundBids data of
                 Inl e \<Rightarrow> Inl e
               | Inr (tradeResults, data1) \<Rightarrow>
                   let data2 = data1\<lparr>promptCount := promptCount data1 + 1\<rparr>;
                       data3 = data2\<lparr>currentPromptType :=
                                 (if promptCount data2 mod 2 = 0 then SellCall else BuyCall)\<rparr>
                   in Inr (tradeResults, s\<lparr>roomsData := (roomsData s)(room \<mapsto> data3)\<rparr>))))"

definition join_room :: "server \<Rightarrow> string \<Rightarrow> string \<Rightarrow> string \<Rightarrow> reply option \<times> server" where
  "join_room s room username userID =
     (if username = [] \<or> room \<notin> rooms s then (Some NoSuchRoom, s)
      else case roomsData s room of
        None \<Rightarrow> (None, s)
      | Some data \<Rightarrow>
          if started data \<and> gameOver data then (Some GameAlreadyStarted, s)
          else if username \<in> set (map snd (usernames data)) then (Some UsernameTaken, s)
          else
            let data1 = data\<lparr>usernames := obj_assign userID username (usernames data)\<rparr>;
                s1 = s\<lparr>playerToRoom := map_assign userID room (playerToRoom s)\<rparr>;
                data2 = (case obj_read (positions data1) userID of
                           Undefined \<Rightarrow> data1\<lparr>positions :=
                             obj_assign userID
                               \<lparr>cash = 100, calls = 0, portfolioHistory = [], sharpe = None\<rparr>
                               (positions data1)\<rparr>
                         | _ \<Rightarrow> data1)
            in (Some JoinApproved, s1\<lparr>roomsData := (roomsData s1)(room \<mapsto> data2)\<rparr>))"

definition submitBid :: "server \<Rightarrow> real \<Rightarrow> string \<Rightarrow> server" where
  "submitBid s bidPrice userID =
     (case room_key (js_get (playerToRoom s) userID) of
        None \<Rightarrow> s
      | Some room \<Rightarrow>
          (case roomsData s room of
            None \<Rightarrow> s
          | Some data \<Rightarrow>
              if \<not> started data \<or> gameOver data then s
              else s\<lparr>roomsData := (roomsData s)(room \<mapsto>
                     data\<lparr>bids := obj_assign userID bidPrice (bids data)\<rparr>)\<rparr>))"

record final_result =
  res_username :: "string js_value"
  res_finalCash :: real
  res_sharpe :: jsnum
  res_calls :: int
  res_callIntrinsicValue :: real
  res_portfolioHistory :: "real list"
  res_finalStockPrice :: real

text \<open>One iteration of the loop of \<open>finalizeGame\<close> over the positions.\<close>

definition finalizePosition ::
  "room_data \<Rightarrow> real \<Rightarrow> string \<times> position \<Rightarrow> position \<times> final_result" where
  "finalizePosition data finalPx entry =
     (case entry of (uid, pos) \<Rightarrow>
      let strike = 100;
          callIntrinsicValue = max 0 (finalPx - strike);
          finalCash = cash pos + real_of_int (calls pos) * callIntrinsicValue;
          pos' = pos\<lparr>portfolioHistory := portfolioHistory pos @ [finalCash]\<rparr>;
          shrp = computeSharpeRatio (portfolioHistory pos')
      in (pos',
          \<lparr> res_username = obj_read (usernames data) uid,
            res_finalCash = finalCash,
            res_sharpe = shrp,
            res_calls = calls pos',
            res_callIntrinsicValue = callIntrinsicValue,
            res_portfolioHistory = portfolioHistory pos',
            res_finalStockPrice = finalPx \<rparr>))"

definition finalizeGame :: "server \<Rightarrow> string \<Rightarrow> real \<Rightarrow> final_result obj option \<times> server" where
  "finalizeGame s adminID finalPx =
     (case room_key (js_get (adminToRoom s) adminID) of
        None \<Rightarrow> (None, s)
      | Some room \<Rightarrow>
          (case roomsData s room of
            None \<Rightarrow> (None, s)
          | Some data \<Rightarrow>
              let data1 = data\<lparr>gameOver := True\<rparr>;
                  results = fold (\<lambda>entry res.
                                    obj_set (fst entry) (snd (finalizePosition data1 finalPx entry)) res)
                                 (positions data1) [];
                  data2 = data1\<lparr>positions :=
                            map (\<lambda>entry. (fst entry, fst (finalizePosition data1 finalPx entry)))
                                (positions data1)\<rparr>
              in (Some results, s\<lparr>roomsData := (roomsData s)(room \<mapsto> data2)\<rparr>)))"

text \<open>
  \<open>destroyRoom(room, adminID)\<close>, with \<open>room\<close> as the caller read it from \<open>adminToRoom\<close>.
  \<open>rooms.delete(room)\<close> removes the name only when \<open>room\<close> is that string: an inherited
  function is no element of the set.
\<close>

definition destroyRoom :: "server \<Rightarrow> string js_value \<Rightarrow> string \<Rightarrow> server" where
  "destroyRoom s room adminID =
     (case room_key room of
        None \<Rightarrow> s
      | Some r \<Rightarrow>
          (case roomsData s r of
            None \<Rightarrow> s
          | Some data \<Rightarrow>
              s\<lparr>rooms := (case room of Own name \<Rightarrow> rooms s - {name} | _ \<Rightarrow> rooms s),
                playerToRoom := fold map_delete (map fst (usernames data)) (playerToRoom s),
                roomsData := map_delete r (roomsData s),
                roomToAdmin := map_delete r (roomToAdmin s),
                adminToRoom := map_delete adminID (adminToRoom s)\<rparr>))"

definition disconnect :: "server \<Rightarrow> string \<Rightarrow> server" where
  "disconnect s userID =
     (let room = js_get (adminToRoom s) userID in
      case room_key room of
        None \<Rightarrow> s
      | Some r \<Rightarrow> destroyRoom s room userID)"

definition heartbeatTimeout :: "server \<Rightarrow> string \<Rightarrow> server" where
  "heartbeatTimeout s ID = destroyRoom s (js_get (adminToRoom s) ID) ID"

section \<open>The messages of a connection\<close>

text \<open>
  The state-changing events of \<open>io.on("connection", ...)\<close> and the heartbeat timer, and
  their dispatch.  A handler that throws leaves \<open>Inl\<close>.
\<close>

datatype message =
    RoomStart string string
  | StartGame string
  | RoundUpdate string
  | JoinRoom string string string
  | SubmitBid real string
  | FinalizeGame string real
  | Disconnect string
  | HeartbeatTimeout string

fun handle :: "server \<Rightarrow> message \<Rightarrow> error + server" where
  "handle s (RoomStart room userID) = Inr (snd (room_start s room userID))"
| "handle s (StartGame adminID) = Inr (startGame s adminID)"
| "handle s (RoundUpdate adminID) =
     (case roundUpdate s adminID of Inl e \<Rightarrow> Inl e | Inr (tr, s') \<Rightarrow> Inr s')"
| "handle s (JoinRoom room username userID) = Inr (snd (join_room s room username userID))"
| "handle s (SubmitBid bidPrice userID) = Inr (submitBid s bidPrice userID)"
| "handle s (FinalizeGame adminID finalPx) = Inr (snd (finalizeGame s adminID finalPx))"
| "handle s (Disconnect userID) = Inr (disconnect s userID)"
| "handle s (HeartbeatTimeout ID) = Inr (heartbeatTimeout s ID)"

section \<open>Example states and auxiliary notions\<close>

definition ex_data :: room_data where
  "ex_data = \<lparr> admin = ''adm'', usernames = [(''A'', ''ann''), (''B'', ''bob''), (''C'', ''cy'')],
      started = True, gameOver = False,
      positions = [(''A'', \<lparr>cash = 100, calls = 0, portfolioHistory = [100], sharpe = None\<rparr>),
                   (''B'', \<lparr>cash = 100, calls = 0, portfolioHistory = [100], sharpe = None\<rparr>),
                   (''C'', \<lparr>cash = 100, calls = 0, portfolioHistory = [100], sharpe = None\<rparr>)],
      bids = [(''A'', 12), (''B'', 10), (''C'', 8)], promptCount = 1, strikePrice = 100,
      currentPromptType = SellCall, marketPrice = 0 \<rparr>"

definition ex_server :: server where
  "ex_server = \<lparr> rooms = {''room''}, adminToRoom = [''adm'' \<mapsto> ''room''],
      playerToRoom = [''A'' \<mapsto> ''room'', ''B'' \<mapsto> ''room'', ''C'' \<mapsto> ''room''],
      roomToAdmin = [''room'' \<mapsto> ''adm''], roomsData = [''room'' \<mapsto> ex_data] \<rparr>"

definition ex_data_buy :: room_data where
  "ex_data_buy = ex_data\<lparr>bids := [(''A'', 95), (''B'', 98), (''C'', 101)], promptCount := 3,
      currentPromptType := BuyCall\<rparr>"

text \<open>A sequence of messages, handled in order; a handler that throws ends the run.\<close>

fun run :: "server \<Rightarrow> message list \<Rightarrow> error + server" where
  "run s [] = Inr s"
| "run s (msg # msgs) = (case handle s msg of Inl e \<Rightarrow> Inl e | Inr s' \<Rightarrow> run s' msgs)"

definition ex_lobby :: server where
  "ex_lobby = snd (join_room (snd (room_start initServer ''room'' ''adm'')) ''room'' ''ann'' ''A'')"

definition ex_round1 :: server where
  "ex_round1 = startGame ex_lobby ''adm''"

definition ex_round2 :: server where
  "ex_round2 = (case roundUpdate ex_round1 ''adm'' of Inl e \<Rightarrow> ex_round1 | Inr (tr, s) \<Rightarrow> s)"

definition ex_holding :: server where
  "ex_holding = ex_server\<lparr>roomsData := [''room'' \<mapsto>
      ex_data\<lparr>positions := [(''A'', \<lparr>cash = 50, calls = 2, portfolioHistory = [100, 80],
                                      sharpe = None\<rparr>)],
              bids := []\<rparr>]\<rparr>"

text \<open>The position of a player in a room, for reading states.\<close>

definition positionOf :: "server \<Rightarrow> string \<Rightarrow> string \<Rightarrow> position option" where
  "positionOf s room userID =
     (case roomsData s room of None \<Rightarrow> None | Some data \<Rightarrow> obj_get (positions data) userID)"

definition ex_bidding :: server where
  "ex_bidding = submitBid ex_round1 10 ''A''"

definition ex_over :: server where
  "ex_over = snd (finalizeGame ex_bidding ''adm'' 120)"

definition ex_after_over :: server where
  "ex_after_over = (case roundUpdate ex_over ''adm'' of Inl e \<Rightarrow> ex_over | Inr (tr, s) \<Rightarrow> s)"

definition ex_two_rooms :: server where
  "ex_two_rooms =
     snd (room_start (snd (room_start initServer ''room'' ''adm'')) ''other'' ''adm2'')"

text \<open>
  A position's history is kept from one state to the next: the room is gone, or the player
  still has a position whose history starts with the old one.
\<close>

definition history_kept :: "server \<Rightarrow> string \<Rightarrow> string \<Rightarrow> position \<Rightarrow> bool" where
  "history_kept s' room u pos =
     (roomsData s' room = None
      \<or> (\<exists>pos'. positionOf s' room u = Some pos'
             \<and> prefix (portfolioHistory pos) (portfolioHistory pos')))"

text \<open>
  The keys of a JavaScript object are distinct; the handlers keep the association lists so
  (\<open>handle_wellformed\<close>).
\<close>

definition objects_wellformed :: "server \<Rightarrow> bool" where
  "objects_wellformed s =
     (\<forall>room data. roomsData s room = Some data \<longrightarrow>
        distinct (map fst (usernames data)) \<and> distinct (map fst (positions data))
        \<and> distinct (map fst (bids data)))"

definition ex_ctor_bid :: server where
  "ex_ctor_bid =
     submitBid
       (startGame
          (snd (join_room (snd (room_start initServer ''room'' ''adm''))
                  ''room'' ''ann'' ''constructor''))
          ''adm'')
       5 ''constructor''"

definition ex_ctor_after :: server where
  "ex_ctor_after =
     (case roundUpdate ex_ctor_bid ''adm'' of Inl e \<Rightarrow> ex_ctor_bid | Inr (tr, s) \<Rightarrow> s)"

text \<open>
  The positions of a room after the trades of the round that \<open>processRoundBids\<close> closes
  and before the valuation step.
\<close>

definition tradedPositions :: "room_data \<Rightarrow> position obj" where
  "tradedPositions data =
     (if bids data = [] then positions data
      else
        let srt = sortBids (currentPromptType data) (bids data);
            medianPrice = snd (srt ! nat (medianIndex srt))
        in fst (executeBids (currentPromptType data) medianPrice srt (positions data)))"

text \<open>
  The rule that ties a started room's direction to its round counter: round 1 is a sell-call
  round, and from round 2 on an even round is a sell-call round and an odd one a buy-call
  round.
\<close>

definition direction_rule :: "room_data \<Rightarrow> bool" where
  "direction_rule data =
     (started data \<longrightarrow>
        1 \<le> promptCount data
      \<and> currentPromptType data =
          (if promptCount data = 1 \<or> even (promptCount data) then SellCall else BuyCall))"

definition ex_game :: "message list" where
  "ex_game = [RoomStart ''room'' ''adm'', JoinRoom ''room'' ''ann'' ''A'', StartGame ''adm'',
              RoundUpdate ''adm'', SubmitBid 5 ''A'', RoundUpdate ''adm'']"

definition ex_round3 :: server where
  "ex_round3 = (case run initServer ex_game of Inl e \<Rightarrow> initServer | Inr s \<Rightarrow> s)"

text \<open>
  A game in which the player's valuation reaches zero: a bid of 100 in round 1 leaves no
  cash and one call, a bid of 0 in round 2 sets the market price to 0, and round 3 values
  the position at 0 again.
\<close>

definition ex_zero_game :: "message list" where
  "ex_zero_game = [RoomStart ''room'' ''adm'', JoinRoom ''room'' ''ann'' ''A'', StartGame ''adm'',
                   SubmitBid 100 ''A'', RoundUpdate ''adm'', SubmitBid 0 ''A'', RoundUpdate ''adm'',
                   RoundUpdate ''adm'']"

definition ex_zero :: server where
  "ex_zero = (case run initServer ex_zero_game of Inl e \<Rightarrow> initServer | Inr s \<Rightarrow> s)"

text \<open>A room that is finalized in the lobby, before any \<open>startGame\<close>.\<close>

definition ex_lobby_over :: server where
  "ex_lobby_over = snd (finalizeGame ex_lobby ''adm'' 120)"

section \<open>The Sharpe ratio as the specification words it\<close>

text \<open>
  The specification's formula, over the reals: step returns \<open>r_i = (v_i - v_{i-1}) / v_{i-1}\<close>,
  their mean, the sample standard deviation with divisor \<open>max (count - 1) 1\<close>, the result
  \<open>0\<close> for fewer than two points or a deviation below the threshold, and otherwise
  \<open>(mean - riskFreeStepRate) / stdev\<close>.  \<open>riskFreeStepRate\<close> is the per-round fraction of the
  ledger's compounding step.
\<close>

definition riskFreeStepRate :: real where
  "riskFreeStepRate = 0.05 / 60"

definition spec_returns :: "real list \<Rightarrow> real list" where
  "spec_returns v = map (\<lambda>i. (v ! i - v ! (i - 1)) / v ! (i - 1)) [1..<length v]"

definition spec_mean :: "real list \<Rightarrow> real" where
  "spec_mean rs = sum_list rs / real (length rs)"

definition spec_stdev :: "real list \<Rightarrow> real" where
  "spec_stdev rs =
     sqrt (sum_list (map (\<lambda>r. (r - spec_mean rs) ^ 2) rs) / real (max (length rs - 1) 1))"

definition spec_sharpe :: "real list \<Rightarrow> real" where
  "spec_sharpe v =
     (if length v < 2 then 0
      else if spec_stdev (spec_returns v) < STDEV_THRESHOLD then 0
      else (spec_mean (spec_returns v) - riskFreeStepRate) / spec_stdev (spec_returns v))"

section \<open>Auxiliary lemmas\<close>

lemma js_get_own [simp]: "m k = Some v \<Longrightarrow> js_get m k = Own v"
  by (simp add: js_get_def)

lemma room_key_simps [simp]:
  "room_key (Own r) = (if r = [] then None else Some r)"
  "room_key (Inherited k) = Some (inherited_key k)"
  "room_key Undefined = None"
  by (simp_all add: room_key_def)

lemma obj_read_own: "obj_get kvs k = Some v \<Longrightarrow> obj_read kvs k = Own v"
  by (simp add: obj_read_def obj_get_def)

lemma obj_read_cases:
  "obj_read kvs k =
     (case obj_get kvs k of
        Some v \<Rightarrow> Own v
      | None \<Rightarrow> if k \<in> set object_prototype_keys then Inherited k else Undefined)"
  by (simp add: obj_read_def obj_get_def js_get_def)

lemma proto_in_keys: "''__proto__'' \<in> set object_prototype_keys"
  by (simp add: object_prototype_keys_def)

lemma obj_assign_ordinary: "k \<notin> set object_prototype_keys \<Longrightarrow> obj_assign k v kvs = obj_set k v kvs"
  using proto_in_keys by (auto simp: obj_assign_def)

lemma map_assign_ordinary: "k \<notin> set object_prototype_keys \<Longrightarrow> map_assign k v m = m(k \<mapsto> v)"
  using proto_in_keys by (auto simp: map_assign_def)

lemmas js_defs = obj_assign_def map_assign_def map_delete_def obj_read_def js_get_def
  object_prototype_keys_def inherited_key_def

lemma map_of_obj_set: "map_of (obj_set k v kvs) = (map_of kvs)(k \<mapsto> v)"
  by (induction kvs) (auto simp: fun_eq_iff)

lemma obj_get_obj_set: "obj_get (obj_set k v kvs) k' = (if k' = k then Some v else obj_get kvs k')"
  by (simp add: obj_get_def map_of_obj_set)

lemma keys_obj_set: "fst ` set (obj_set k v kvs) = insert k (fst ` set kvs)"
  by (induction k v kvs rule: obj_set.induct) (simp_all add: insert_commute)

lemma distinct_obj_set: "distinct (map fst kvs) \<Longrightarrow> distinct (map fst (obj_set k v kvs))"
  by (induction k v kvs rule: obj_set.induct) (auto simp: keys_obj_set)

lemma mset_insert_by: "mset (insert_by cmp x ys) = add_mset x (mset ys)"
  by (induction ys) auto

lemma mset_js_sort: "mset (js_sort cmp xs) = mset xs"
  by (induction xs) (auto simp: js_sort_def mset_insert_by)

lemma set_insert_by: "set (insert_by cmp x ys) = insert x (set ys)"
  by (induction ys) auto

lemma sorted_insert_by:
  assumes tot: "\<And>a b. cmp a b \<le> 0 \<or> cmp b a \<le> 0"
      and trans: "\<And>a b c. cmp a b \<le> 0 \<Longrightarrow> cmp b c \<le> 0 \<Longrightarrow> cmp a c \<le> 0"
  shows "sorted_wrt (\<lambda>a b. cmp a b \<le> 0) ys \<Longrightarrow> sorted_wrt (\<lambda>a b. cmp a b \<le> 0) (insert_by cmp x ys)"
proof (induction ys)
  case Nil
  then show ?case by simp
next
  case (Cons y ys)
  show ?case
  proof (cases "cmp x y \<le> 0")
    case True
    with Cons.prems show ?thesis using trans by auto
  next
    case False
    then have "cmp y x \<le> 0" using tot by blast
    with False Cons show ?thesis by (auto simp: set_insert_by)
  qed
qed

lemma sorted_js_sort:
  assumes tot: "\<And>a b. cmp a b \<le> 0 \<or> cmp b a \<le> 0"
      and trans: "\<And>a b c. cmp a b \<le> 0 \<Longrightarrow> cmp b c \<le> 0 \<Longrightarrow> cmp a c \<le> 0"
  shows "sorted_wrt (\<lambda>a b. cmp a b \<le> 0) (js_sort cmp xs)"
proof (induction xs)
  case Nil
  show ?case by (simp add: js_sort_def)
next
  case (Cons x xs)
  have "js_sort cmp (x # xs) = insert_by cmp x (js_sort cmp xs)"
    by (simp add: js_sort_def)
  with Cons show ?case using sorted_insert_by[of cmp, OF tot trans] by simp
qed

lemma sortBids_mset: "mset (sortBids pt bs) = mset bs"
  by (simp add: sortBids_def mset_js_sort)

lemma sortBids_length: "length (sortBids pt bs) = length bs"
  using sortBids_mset[of pt bs] by (metis size_mset)

lemma sortBids_desc: "sorted_wrt (\<lambda>a b. snd a \<ge> snd b) (sortBids SellCall bs)"
proof -
  have "sorted_wrt (\<lambda>a b. (\<lambda>a b. snd b - snd a) a b \<le> (0::real)) (js_sort (\<lambda>a b. snd b - snd a) bs)"
    by (rule sorted_js_sort) auto
  then show ?thesis by (simp add: sortBids_def)
qed

lemma sortBids_asc: "pt \<noteq> SellCall \<Longrightarrow> sorted_wrt (\<lambda>a b. snd a \<le> snd b) (sortBids pt bs)"
proof -
  assume "pt \<noteq> SellCall"
  have "sorted_wrt (\<lambda>a b. (\<lambda>a b. snd a - snd b) a b \<le> (0::real)) (js_sort (\<lambda>a b. snd a - snd b) bs)"
    by (rule sorted_js_sort) auto
  with \<open>pt \<noteq> SellCall\<close> show ?thesis by (simp add: sortBids_def)
qed

lemma medianIndex_eq: "medianIndex xs = (int (length xs) + 1) div 2 - 1"
proof -
  have "real (length xs) / 2 = real_of_int (int (length xs)) / real_of_int 2"
    by simp
  then have "\<lceil>real (length xs) / 2\<rceil> = - (- int (length xs) div 2)"
    using ceiling_divide_eq_div[of "int (length xs)" 2] by simp
  also have "\<dots> = (int (length xs) + 1) div 2"
    by presburger
  finally have "\<lceil>real (length xs) / 2\<rceil> = (int (length xs) + 1) div 2" .
  then show ?thesis by (simp add: medianIndex_def)
qed


lemma medianIndex_range:
  assumes "xs \<noteq> []"
  shows "0 \<le> medianIndex xs \<and> medianIndex xs < int (length xs)"
proof -
  from assms have "0 < int (length xs)" by simp
  then show ?thesis unfolding medianIndex_eq by presburger
qed

lemma js_index_median:
  "xs \<noteq> [] \<Longrightarrow> js_index xs (medianIndex xs) = Some (xs ! nat (medianIndex xs))"
  using medianIndex_range[of xs] by (simp add: js_index_def)

lemma sortBids_nonempty: "bs \<noteq> [] \<Longrightarrow> sortBids pt bs \<noteq> []"
  using sortBids_length[of pt bs] by auto

lemma marketPrice_broadcast [simp]:
  "marketPrice (broadcastPositionsAndSharpe data) = marketPrice data"
  by (simp add: broadcastPositionsAndSharpe_def applyRiskFreeAndRecord_def Let_def)

lemma processRoundBids_nonempty:
  assumes "bids data \<noteq> []"
  shows "processRoundBids data =
     (let srt = sortBids (currentPromptType data) (bids data);
          medianPrice = snd (srt ! nat (medianIndex srt));
          ex = executeBids (currentPromptType data) medianPrice srt (positions data)
      in Inr (Some (snd ex),
              (broadcastPositionsAndSharpe
                 (data\<lparr>positions := fst ex, marketPrice := medianPrice\<rparr>))\<lparr>bids := []\<rparr>))"
  using assms js_index_median[OF sortBids_nonempty[OF assms, of "currentPromptType data"]]
  by (simp add: processRoundBids_def Let_def split: prod.splits)

lemma processRoundBids_empty:
  "bids data = [] \<Longrightarrow> processRoundBids data = Inr (None, broadcastPositionsAndSharpe data)"
  by (simp add: processRoundBids_def)

lemma executeBid_poss:
  "obj_get (fst (executeBid pt c (u', p') acc)) u =
     (if u = u' \<and> (if pt = SellCall then c \<le> p' else p' \<le> c)
         \<and> (obj_get (fst acc) u' \<noteq> None \<or> u' \<notin> set object_prototype_keys)
      then Some (let pos = (case obj_get (fst acc) u' of None \<Rightarrow> newPosition | Some q \<Rightarrow> q)
                 in if pt = SellCall then pos\<lparr>cash := cash pos - p', calls := calls pos + 1\<rparr>
                    else pos\<lparr>cash := cash pos + p', calls := calls pos - 1\<rparr>)
      else obj_get (fst acc) u)"
  by (cases acc)
     (auto simp: executeBid_def Let_def obj_get_obj_set obj_read_cases split: option.splits)

lemma executeBid_results:
  "obj_get (snd (executeBid pt c (u', p') acc)) u =
     (if u = u'
      then Some (if (if pt = SellCall then c \<le> p' else p' \<le> c) then Executed p' else NotExecuted)
      else obj_get (snd acc) u)"
  by (cases acc)
     (auto simp: executeBid_def Let_def obj_get_obj_set obj_read_cases split: option.splits)

lemma fold_executeBid_other:
  "u \<notin> fst ` set xs \<Longrightarrow>
     obj_get (fst (fold (executeBid pt c) xs acc)) u = obj_get (fst acc) u
   \<and> obj_get (snd (fold (executeBid pt c) xs acc)) u = obj_get (snd acc) u"
proof (induction xs arbitrary: acc)
  case Nil
  show ?case by simp
next
  case (Cons x xs)
  obtain u' p' where x: "x = (u', p')" by (cases x)
  from Cons.prems x have ne: "u \<noteq> u'" and notin: "u \<notin> fst ` set xs" by auto
  show ?case
    using Cons.IH[OF notin, of "executeBid pt c x acc"] ne
    by (simp add: x executeBid_poss executeBid_results)
qed

lemma fold_executeBid_result:
  assumes "distinct (map fst xs)" and "(u, p) \<in> set xs"
  shows "obj_get (snd (fold (executeBid pt c) xs acc)) u =
           Some (if (if pt = SellCall then c \<le> p else p \<le> c) then Executed p else NotExecuted)"
  using assms
proof (induction xs arbitrary: acc)
  case Nil
  then show ?case by simp
next
  case (Cons x xs)
  obtain u' p' where x: "x = (u', p')" by (cases x)
  show ?case
  proof (cases "(u, p) = x")
    case True
    with Cons.prems x have notin: "u \<notin> fst ` set xs" and eq: "u' = u" "p' = p" by auto
    show ?thesis
      using fold_executeBid_other[OF notin, of pt c "executeBid pt c x acc"]
      by (simp add: x eq executeBid_results)
  next
    case False
    with Cons.prems x have mem: "(u, p) \<in> set xs" and dist: "distinct (map fst xs)" by auto
    from Cons.IH[OF dist mem, of "executeBid pt c x acc"] show ?thesis by simp
  qed
qed

lemma fold_executeBid_bid:
  assumes "distinct (map fst xs)" and "(u, p) \<in> set xs"
      and "obj_get (fst acc) u \<noteq> None \<or> u \<notin> set object_prototype_keys"
  shows "obj_get (snd (fold (executeBid pt c) xs acc)) u =
           Some (if (if pt = SellCall then c \<le> p else p \<le> c) then Executed p else NotExecuted)
       \<and> obj_get (fst (fold (executeBid pt c) xs acc)) u =
           (if (if pt = SellCall then c \<le> p else p \<le> c)
            then Some (let pos = (case obj_get (fst acc) u of None \<Rightarrow> newPosition | Some q \<Rightarrow> q)
                       in if pt = SellCall then pos\<lparr>cash := cash pos - p, calls := calls pos + 1\<rparr>
                          else pos\<lparr>cash := cash pos + p, calls := calls pos - 1\<rparr>)
            else obj_get (fst acc) u)"
  using assms
proof (induction xs arbitrary: acc)
  case Nil
  then show ?case by simp
next
  case (Cons x xs)
  obtain u' p' where x: "x = (u', p')" by (cases x)
  show ?case
  proof (cases "(u, p) = x")
    case True
    with Cons.prems x have notin: "u \<notin> fst ` set xs" and eq: "u' = u" "p' = p" by auto
    show ?thesis
      using fold_executeBid_other[OF notin, of pt c "executeBid pt c x acc"] Cons.prems(3)
      by (simp add: x eq executeBid_poss executeBid_results)
  next
    case False
    with Cons.prems x have mem: "(u, p) \<in> set xs" and dist: "distinct (map fst xs)" by auto
    from mem Cons.prems x have ne: "u \<noteq> u'" by force
    have keep: "obj_get (fst (executeBid pt c x acc)) u = obj_get (fst acc) u"
      using ne by (simp add: x executeBid_poss)
    have ok: "obj_get (fst (executeBid pt c x acc)) u \<noteq> None
                \<or> u \<notin> set object_prototype_keys"
      using Cons.prems(3) keep by simp
    from Cons.IH[OF dist mem ok, unfolded keep] show ?thesis by simp
  qed
qed

lemma fold_executeBid_inherited:
  "obj_get (fst acc) u = None \<Longrightarrow> u \<in> set object_prototype_keys \<Longrightarrow>
     obj_get (fst (fold (executeBid pt c) xs acc)) u = None"
proof (induction xs arbitrary: acc)
  case Nil
  then show ?case by simp
next
  case (Cons x xs)
  obtain u' p' where x: "x = (u', p')" by (cases x)
  have "obj_get (fst (executeBid pt c x acc)) u = None"
    using Cons.prems by (auto simp: x executeBid_poss)
  from Cons.IH[OF this Cons.prems(2)] show ?case by simp
qed

lemma distinct_sortBids:
  "distinct (map fst bs) \<Longrightarrow> distinct (map fst (sortBids pt bs))"
proof -
  assume d: "distinct (map fst bs)"
  have "mset (map fst (sortBids pt bs)) = mset (map fst bs)"
    by (simp add: sortBids_mset)
  then show ?thesis using d by (metis mset_eq_imp_distinct_iff)
qed

lemma set_sortBids: "set (sortBids pt bs) = set bs"
  using sortBids_mset[of pt bs] by (metis set_mset_mset)

lemma obj_get_map_values:
  "obj_get (map (\<lambda>(k, v). (k, f k v)) kvs) u = map_option (f u) (obj_get kvs u)"
  by (induction kvs) (auto simp: obj_get_def)

lemma positions_broadcast:
  "obj_get (positions (broadcastPositionsAndSharpe data)) u =
     map_option (\<lambda>pos.
        pos\<lparr>cash := cash pos * (1 + 0.05 / 60),
            portfolioHistory := portfolioHistory pos @
               [cash pos * (1 + 0.05 / 60) + real_of_int (calls pos) * marketPrice data],
            sharpe := Some (computeSharpeRatio (portfolioHistory pos @
               [cash pos * (1 + 0.05 / 60) + real_of_int (calls pos) * marketPrice data]))\<rparr>)
       (obj_get (positions data) u)"
proof -
  have "positions (broadcastPositionsAndSharpe data) =
     map (\<lambda>(k, pos). (k, (\<lambda>k pos. pos\<lparr>cash := cash pos * (1 + 0.05 / 60),
            portfolioHistory := portfolioHistory pos @
               [cash pos * (1 + 0.05 / 60) + real_of_int (calls pos) * marketPrice data],
            sharpe := Some (computeSharpeRatio (portfolioHistory pos @
               [cash pos * (1 + 0.05 / 60) + real_of_int (calls pos) * marketPrice data]))\<rparr>) k pos))
       (positions data)"
    by (simp add: broadcastPositionsAndSharpe_def applyRiskFreeAndRecord_def Let_def
        case_prod_unfold comp_def)
  then show ?thesis by (simp only: obj_get_map_values)
qed

lemma processRoundBids_frame:
  "\<exists>tr data'. processRoundBids data = Inr (tr, data')
      \<and> promptCount data' = promptCount data
      \<and> currentPromptType data' = currentPromptType data
      \<and> started data' = started data \<and> gameOver data' = gameOver data
      \<and> usernames data' = usernames data \<and> admin data' = admin data
      \<and> strikePrice data' = strikePrice data
      \<and> (tr = None) = (bids data = [])"
proof (cases "bids data = []")
  case True
  then show ?thesis
    by (simp add: processRoundBids_empty broadcastPositionsAndSharpe_def
        applyRiskFreeAndRecord_def Let_def)
next
  case False
  then show ?thesis
    by (simp add: processRoundBids_nonempty broadcastPositionsAndSharpe_def
        applyRiskFreeAndRecord_def Let_def)
qed

lemma roundUpdate_run_key:
  assumes "room_key (js_get (adminToRoom s) adminID) = Some room"
      and "roomsData s room = Some data"
  shows "\<exists>tr data1. processRoundBids data = Inr (tr, data1)
      \<and> roundUpdate s adminID =
          Inr (tr, s\<lparr>roomsData := (roomsData s)(room \<mapsto>
                 data1\<lparr>promptCount := promptCount data + 1,
                       currentPromptType :=
                         (if (promptCount data + 1) mod 2 = 0 then SellCall else BuyCall)\<rparr>)\<rparr>)"
proof -
  from processRoundBids_frame[of data] obtain tr data1 where
    p: "processRoundBids data = Inr (tr, data1)" "promptCount data1 = promptCount data"
    by blast
  show ?thesis using assms p by (simp add: roundUpdate_def Let_def)
qed

lemma roundUpdate_run:
  assumes "adminToRoom s adminID = Some room" and "room \<noteq> []"
      and "roomsData s room = Some data"
  shows "\<exists>tr data1. processRoundBids data = Inr (tr, data1)
      \<and> roundUpdate s adminID =
          Inr (tr, s\<lparr>roomsData := (roomsData s)(room \<mapsto>
                 data1\<lparr>promptCount := promptCount data + 1,
                       currentPromptType :=
                         (if (promptCount data + 1) mod 2 = 0 then SellCall else BuyCall)\<rparr>)\<rparr>)"
  using assms by (intro roundUpdate_run_key) simp_all

lemma startGame_run_key:
  assumes "room_key (js_get (adminToRoom s) adminID) = Some room"
      and "roomsData s room = Some data" and "\<not> started data"
  shows "startGame s adminID = s\<lparr>roomsData := (roomsData s)(room \<mapsto>
           data\<lparr>started := True,
                positions := map (\<lambda>(uid, pos).
                    (uid, pos\<lparr>portfolioHistory := portfolioHistory pos @
                            [cash pos + real_of_int (calls pos) * marketPrice data]\<rparr>))
                  (positions data),
                promptCount := 1, currentPromptType := SellCall\<rparr>)\<rparr>"
  using assms by (simp add: startGame_def Let_def)

lemma startGame_run:
  assumes "adminToRoom s adminID = Some room" and "room \<noteq> []"
      and "roomsData s room = Some data" and "\<not> started data"
  shows "startGame s adminID = s\<lparr>roomsData := (roomsData s)(room \<mapsto>
           data\<lparr>started := True,
                positions := map (\<lambda>(uid, pos).
                    (uid, pos\<lparr>portfolioHistory := portfolioHistory pos @
                            [cash pos + real_of_int (calls pos) * marketPrice data]\<rparr>))
                  (positions data),
                promptCount := 1, currentPromptType := SellCall\<rparr>)\<rparr>"
  using assms by (intro startGame_run_key) simp_all

lemma ex_lobby_eval:
  "ex_lobby = \<lparr> rooms = {''room''}, adminToRoom = [''adm'' \<mapsto> ''room''],
      playerToRoom = [''A'' \<mapsto> ''room''], roomToAdmin = [''room'' \<mapsto> ''adm''],
      roomsData = [''room'' \<mapsto> (initRoomData ''adm'')\<lparr>usernames := [(''A'', ''ann'')],
         positions := [(''A'', \<lparr>cash = 100, calls = 0, portfolioHistory = [], sharpe = None\<rparr>)]\<rparr>] \<rparr>"
  by (simp add: ex_lobby_def room_start_def join_room_def initServer_def initRoomData_def
      js_defs Let_def)

lemma keys_broadcast:
  "map fst (positions (broadcastPositionsAndSharpe data)) = map fst (positions data)"
  by (simp add: broadcastPositionsAndSharpe_def applyRiskFreeAndRecord_def Let_def
      case_prod_unfold comp_def)

lemma returns_loop_eq:
  "1 \<le> i \<Longrightarrow> returns_loop history i acc =
     (if \<exists>j. i \<le> j \<and> j < length history \<and> history ! (j - 1) = 0 then None
      else Some (acc @ map (\<lambda>j. (history ! j - history ! (j - 1)) / history ! (j - 1))
                          [i..<length history]))"
proof (induction history i acc rule: returns_loop.induct)
  case (1 history i returns)
  show ?case
  proof (cases "i < length history")
    case False
    then show ?thesis by (simp add: returns_loop.simps[of history i returns])
  next
    case lt: True
    show ?thesis
    proof (cases "history ! (i - 1) = 0")
      case True
      with lt have "\<exists>j. i \<le> j \<and> j < length history \<and> history ! (j - 1) = 0" by blast
      with lt True show ?thesis by (simp add: returns_loop.simps[of history i returns])
    next
      case nz: False
      have ex: "(\<exists>j. i \<le> j \<and> j < length history \<and> history ! (j - 1) = 0)
                 = (\<exists>j. i + 1 \<le> j \<and> j < length history \<and> history ! (j - 1) = 0)"
      proof
        assume "\<exists>j. i \<le> j \<and> j < length history \<and> history ! (j - 1) = 0"
        then obtain j where j: "i \<le> j" "j < length history" "history ! (j - 1) = 0" by blast
        with nz have "j \<noteq> i" by auto
        with j show "\<exists>j. i + 1 \<le> j \<and> j < length history \<and> history ! (j - 1) = 0"
          by (intro exI[of _ j]) simp
      next
        assume "\<exists>j. i + 1 \<le> j \<and> j < length history \<and> history ! (j - 1) = 0"
        then show "\<exists>j. i \<le> j \<and> j < length history \<and> history ! (j - 1) = 0"
          by (meson add_leD1)
      qed
      have up: "[i..<length history] = i # [i + 1..<length history]"
        using lt by (simp add: upt_conv_Cons)
      have "returns_loop history i returns =
            returns_loop history (i + 1)
              (returns @ [(history ! i - history ! (i - 1)) / history ! (i - 1)])"
        using lt nz by (simp add: returns_loop.simps[of history i returns])
      also have "\<dots> =
         (if \<exists>j. i + 1 \<le> j \<and> j < length history \<and> history ! (j - 1) = 0 then None
          else Some ((returns @ [(history ! i - history ! (i - 1)) / history ! (i - 1)]) @
                 map (\<lambda>j. (history ! j - history ! (j - 1)) / history ! (j - 1))
                          [i + 1..<length history]))"
        using "1.IH"[OF lt nz] by simp
      finally have eq: "returns_loop history i returns =
         (if \<exists>j. i + 1 \<le> j \<and> j < length history \<and> history ! (j - 1) = 0 then None
          else Some ((returns @ [(history ! i - history ! (i - 1)) / history ! (i - 1)]) @
                 map (\<lambda>j. (history ! j - history ! (j - 1)) / history ! (j - 1))
                          [i + 1..<length history]))" .
      show ?thesis
        by (subst eq, subst ex, subst up) auto
    qed
  qed
qed

lemma foldl_plus_sum_list: "foldl (+) a xs = a + sum_list (xs :: real list)"
  by (induction xs arbitrary: a) simp_all

lemma zero_denominator_iff:
  "(\<exists>j. 1 \<le> j \<and> j < length v \<and> v ! (j - 1) = 0) = (\<exists>i < length v - 1. v ! i = (0::real))"
proof
  assume "\<exists>j. 1 \<le> j \<and> j < length v \<and> v ! (j - 1) = 0"
  then obtain j where "1 \<le> j" "j < length v" "v ! (j - 1) = 0" by blast
  then show "\<exists>i < length v - 1. v ! i = 0" by (intro exI[of _ "j - 1"]) auto
next
  assume "\<exists>i < length v - 1. v ! i = 0"
  then obtain i where "i < length v - 1" "v ! i = 0" by blast
  then show "\<exists>j. 1 \<le> j \<and> j < length v \<and> v ! (j - 1) = 0"
    by (intro exI[of _ "i + 1"]) auto
qed

lemma returns_loop_spec:
  "returns_loop v 1 [] = (if \<exists>i < length v - 1. v ! i = 0 then None else Some (spec_returns v))"
proof -
  have "returns_loop v 1 [] =
     (if \<exists>j. 1 \<le> j \<and> j < length v \<and> v ! (j - 1) = 0 then None
      else Some ([] @ map (\<lambda>j. (v ! j - v ! (j - 1)) / v ! (j - 1)) [1..<length v]))"
    by (rule returns_loop_eq) simp
  then show ?thesis
    by (simp only: zero_denominator_iff spec_returns_def append_Nil)
qed

lemma length_spec_returns: "length (spec_returns v) = length v - 1"
  by (simp add: spec_returns_def)

lemma STDEV_THRESHOLD_pos: "0 < STDEV_THRESHOLD"
  by (simp add: STDEV_THRESHOLD_def)

lemma sharpe_of_returns:
  assumes "rs \<noteq> []"
  shows "(let avgR = foldl (+) 0 rs / real (length rs);
              rfStep = 0.05 / 60;
              sqDiffs = map (\<lambda>r. (r - avgR) ^ 2) rs;
              variance = foldl (+) 0 sqDiffs /
                (if real (length rs) - 1 = 0 then 1 else real (length rs) - 1);
              stdev = sqrt variance
          in if stdev < STDEV_THRESHOLD then Finite 0
             else if stdev = 0 then Finite 0
             else Finite ((avgR - rfStep) / stdev))
       = Finite (if spec_stdev rs < STDEV_THRESHOLD then 0
                 else (spec_mean rs - riskFreeStepRate) / spec_stdev rs)"
proof -
  from assms have len: "1 \<le> length rs" by (cases rs) simp_all
  have dv: "(if real (length rs) - 1 = 0 then 1 else real (length rs) - 1)
              = real (max (length rs - 1) 1)"
  proof (cases "length rs = 1")
    case True
    then show ?thesis by simp
  next
    case False
    with len have two: "2 \<le> length rs" by simp
    then have m: "max (length rs - 1) 1 = length rs - 1" by arith
    from two have r: "real (length rs - 1) = real (length rs) - 1"
      by (simp add: of_nat_diff)
    from two have "real (length rs) - 1 \<noteq> 0" by simp
    then show ?thesis unfolding m r by simp
  qed
  have avg: "foldl (+) 0 rs / real (length rs) = spec_mean rs"
    by (simp add: foldl_plus_sum_list spec_mean_def)
  have sd: "sqrt (foldl (+) 0 (map (\<lambda>r. (r - spec_mean rs) ^ 2) rs) /
              (if real (length rs) - 1 = 0 then 1 else real (length rs) - 1)) = spec_stdev rs"
    unfolding dv by (simp add: foldl_plus_sum_list spec_stdev_def)
  show ?thesis
    unfolding Let_def avg sd using STDEV_THRESHOLD_pos
    by (auto simp: riskFreeStepRate_def)
qed

lemma computeSharpeRatio_short: "length v < 2 \<Longrightarrow> computeSharpeRatio v = Finite 0"
  by (simp add: computeSharpeRatio_def)

lemma computeSharpeRatio_NaN:
  "2 \<le> length v \<Longrightarrow> \<exists>i < length v - 1. v ! i = 0 \<Longrightarrow> computeSharpeRatio v = NaN"
  unfolding computeSharpeRatio_def returns_loop_spec by simp

lemma computeSharpeRatio_spec:
  assumes "\<forall>i < length v - 1. v ! i \<noteq> 0"
  shows "computeSharpeRatio v = Finite (spec_sharpe v)"
proof (cases "length v < 2")
  case True
  then show ?thesis by (simp add: computeSharpeRatio_def spec_sharpe_def)
next
  case False
  then have ne: "spec_returns v \<noteq> []"
    using length_spec_returns[of v] by (cases "spec_returns v") simp_all
  from assms have rl: "returns_loop v 1 [] = Some (spec_returns v)"
    unfolding returns_loop_spec by simp
  show ?thesis
    unfolding computeSharpeRatio_def rl spec_sharpe_def
    using False sharpe_of_returns[OF ne] by simp
qed


lemma positions_applyRiskFree:
  "obj_get (positions (applyRiskFreeAndRecord data)) u =
     map_option (\<lambda>pos.
        pos\<lparr>cash := cash pos * (1 + 0.05 / 60),
            portfolioHistory := portfolioHistory pos @
               [cash pos * (1 + 0.05 / 60) + real_of_int (calls pos) * marketPrice data]\<rparr>)
       (obj_get (positions data) u)"
proof -
  have "positions (applyRiskFreeAndRecord data) =
     map (\<lambda>(k, pos). (k, (\<lambda>k pos. pos\<lparr>cash := cash pos * (1 + 0.05 / 60),
            portfolioHistory := portfolioHistory pos @
               [cash pos * (1 + 0.05 / 60) + real_of_int (calls pos) * marketPrice data]\<rparr>) k pos))
       (positions data)"
    by (simp add: applyRiskFreeAndRecord_def Let_def case_prod_unfold)
  then show ?thesis by (simp only: obj_get_map_values)
qed

lemma sqrt_hundredth: "sqrt (1 / 100) = 1 / 10"
  by (rule real_sqrt_unique) (simp_all add: power2_eq_square)

lemma fold_obj_set_other:
  "u \<notin> fst ` set xs \<Longrightarrow>
     obj_get (fold (\<lambda>e res. obj_set (fst e) (g e) res) xs acc) u = obj_get acc u"
  by (induction xs arbitrary: acc) (auto simp: obj_get_obj_set)

lemma fold_obj_set_mem:
  "distinct (map fst xs) \<Longrightarrow> e \<in> set xs \<Longrightarrow>
     obj_get (fold (\<lambda>e res. obj_set (fst e) (g e) res) xs acc) (fst e) = Some (g e)"
proof (induction xs arbitrary: acc)
  case Nil
  then show ?case by simp
next
  case (Cons x xs)
  show ?case
  proof (cases "e = x")
    case True
    with Cons.prems have "fst e \<notin> fst ` set xs" by auto
    from fold_obj_set_other[OF this, of g "obj_set (fst x) (g x) acc"] True
    show ?thesis by (simp add: obj_get_obj_set)
  next
    case False
    with Cons.prems have "e \<in> set xs" "distinct (map fst xs)" by auto
    from Cons.IH[OF this(2) this(1)] show ?thesis by simp
  qed
qed

lemma obj_get_map_entries:
  "obj_get (map (\<lambda>e. (fst e, h e)) xs) u = map_option (\<lambda>v. h (u, v)) (obj_get xs u)"
  by (induction xs) (auto simp: obj_get_def)

lemma obj_get_SomeD: "obj_get xs u = Some v \<Longrightarrow> (u, v) \<in> set xs"
  by (simp add: obj_get_def map_of_SomeD)

lemma finalizeGame_run_key:
  assumes "room_key (js_get (adminToRoom s) adminID) = Some room"
      and "roomsData s room = Some data"
  shows "finalizeGame s adminID finalPx =
     (Some (fold (\<lambda>entry res. obj_set (fst entry)
                     (snd (finalizePosition (data\<lparr>gameOver := True\<rparr>) finalPx entry)) res)
                 (positions data) []),
      s\<lparr>roomsData := (roomsData s)(room \<mapsto>
           data\<lparr>gameOver := True,
                positions := map (\<lambda>entry. (fst entry,
                      fst (finalizePosition (data\<lparr>gameOver := True\<rparr>) finalPx entry)))
                  (positions data)\<rparr>)\<rparr>)"
  using assms by (simp add: finalizeGame_def Let_def)

lemma finalizeGame_run:
  assumes "adminToRoom s adminID = Some room" and "room \<noteq> []"
      and "roomsData s room = Some data"
  shows "finalizeGame s adminID finalPx =
     (Some (fold (\<lambda>entry res. obj_set (fst entry)
                     (snd (finalizePosition (data\<lparr>gameOver := True\<rparr>) finalPx entry)) res)
                 (positions data) []),
      s\<lparr>roomsData := (roomsData s)(room \<mapsto>
           data\<lparr>gameOver := True,
                positions := map (\<lambda>entry. (fst entry,
                      fst (finalizePosition (data\<lparr>gameOver := True\<rparr>) finalPx entry)))
                  (positions data)\<rparr>)\<rparr>)"
  using assms by (intro finalizeGame_run_key) simp_all

lemma ex_round1_eval:
  "ex_round1 = \<lparr> rooms = {''room''}, adminToRoom = [''adm'' \<mapsto> ''room''],
      playerToRoom = [''A'' \<mapsto> ''room''], roomToAdmin = [''room'' \<mapsto> ''adm''],
      roomsData = [''room'' \<mapsto>
        \<lparr> admin = ''adm'', usernames = [(''A'', ''ann'')], started = True, gameOver = False,
          positions = [(''A'', \<lparr>cash = 100, calls = 0, portfolioHistory = [100], sharpe = None\<rparr>)],
          bids = [], promptCount = 1, strikePrice = 100, currentPromptType = SellCall,
          marketPrice = 0 \<rparr>] \<rparr>"
  by (simp add: ex_round1_def ex_lobby_eval startGame_def initRoomData_def Let_def)

lemma ex_over_eval:
  "ex_over = \<lparr> rooms = {''room''}, adminToRoom = [''adm'' \<mapsto> ''room''],
      playerToRoom = [''A'' \<mapsto> ''room''], roomToAdmin = [''room'' \<mapsto> ''adm''],
      roomsData = [''room'' \<mapsto>
        \<lparr> admin = ''adm'', usernames = [(''A'', ''ann'')], started = True, gameOver = True,
          positions = [(''A'', \<lparr>cash = 100, calls = 0, portfolioHistory = [100, 100],
                                 sharpe = None\<rparr>)],
          bids = [(''A'', 10)], promptCount = 1, strikePrice = 100,
          currentPromptType = SellCall, marketPrice = 0 \<rparr>] \<rparr>"
  by (simp add: ex_over_def ex_bidding_def ex_round1_eval submitBid_def finalizeGame_def
      finalizePosition_def js_defs Let_def)

lemma finalizeGame_sets_gameOver:
  assumes "adminToRoom s adminID = Some room" and "room \<noteq> []"
      and "roomsData s room = Some data"
  shows "\<exists>data'. roomsData (snd (finalizeGame s adminID finalPx)) room = Some data'
           \<and> gameOver data' \<and> bids data' = bids data"
  by (simp add: finalizeGame_run[OF assms])

lemma submitBid_after_gameOver:
  "playerToRoom s userID = Some room \<Longrightarrow> roomsData s room = Some data \<Longrightarrow> gameOver data
     \<Longrightarrow> submitBid s bidPrice userID = s"
  by (simp add: submitBid_def)

lemma join_room_success:
  assumes "username \<noteq> []" and "room \<in> rooms s" and "roomsData s room = Some data"
      and "\<not> (started data \<and> gameOver data)"
      and "username \<notin> snd ` set (usernames data)"
  shows "join_room s room username userID =
     (Some JoinApproved,
      s\<lparr>playerToRoom := map_assign userID room (playerToRoom s),
        roomsData := (roomsData s)(room \<mapsto>
          data\<lparr>usernames := obj_assign userID username (usernames data),
               positions :=
                 (case obj_read (positions data) userID of
                    Undefined \<Rightarrow> obj_assign userID
                       \<lparr>cash = 100, calls = 0, portfolioHistory = [], sharpe = None\<rparr>
                       (positions data)
                  | _ \<Rightarrow> positions data)\<rparr>)\<rparr>)"
  using assms by (auto simp: join_room_def Let_def split: js_value.splits)

lemma ex_two_rooms_eval:
  "ex_two_rooms = \<lparr> rooms = {''other'', ''room''},
      adminToRoom = [''adm'' \<mapsto> ''room'', ''adm2'' \<mapsto> ''other''],
      playerToRoom = Map.empty,
      roomToAdmin = [''room'' \<mapsto> ''adm'', ''other'' \<mapsto> ''adm2''],
      roomsData = [''room'' \<mapsto> initRoomData ''adm'', ''other'' \<mapsto> initRoomData ''adm2''] \<rparr>"
  by (simp add: ex_two_rooms_def room_start_def initServer_def js_defs)

lemma positionOf_SomeD:
  "positionOf s room u = Some pos \<Longrightarrow>
     \<exists>data. roomsData s room = Some data \<and> obj_get (positions data) u = Some pos"
  by (simp add: positionOf_def split: option.splits)

lemma positionOf_update_other:
  "r \<noteq> room \<Longrightarrow> positionOf (s\<lparr>roomsData := (roomsData s)(r \<mapsto> d)\<rparr>) room u = positionOf s room u"
  by (simp add: positionOf_def)

lemma positionOf_update_same:
  "positionOf (s\<lparr>roomsData := (roomsData s)(room \<mapsto> d)\<rparr>) room u = obj_get (positions d) u"
  by (simp add: positionOf_def)

lemma fold_executeBid_history:
  "obj_get (fst acc) u = Some p \<Longrightarrow>
     \<exists>p'. obj_get (fst (fold (executeBid pt c) xs acc)) u = Some p'
        \<and> portfolioHistory p' = portfolioHistory p"
proof (induction xs arbitrary: acc p)
  case Nil
  then show ?case by simp
next
  case (Cons x xs)
  obtain u' b where x: "x = (u', b)" by (cases x)
  have "\<exists>q. obj_get (fst (executeBid pt c x acc)) u = Some q
          \<and> portfolioHistory q = portfolioHistory p"
    using Cons.prems by (auto simp: x executeBid_poss Let_def)
  then obtain q where q: "obj_get (fst (executeBid pt c x acc)) u = Some q"
    "portfolioHistory q = portfolioHistory p" by blast
  from Cons.IH[OF q(1)] q(2) show ?case by simp
qed

lemma processRoundBids_history:
  assumes "processRoundBids data = Inr (tr, data1)"
      and "obj_get (positions data) u = Some pos"
  shows "\<exists>traded pos'. obj_get (positions data1) u = Some pos'
      \<and> portfolioHistory traded = portfolioHistory pos
      \<and> (u \<notin> fst ` set (bids data) \<longrightarrow> traded = pos)
      \<and> cash pos' = cash traded * (1 + 0.05 / 60)
      \<and> calls pos' = calls traded
      \<and> portfolioHistory pos' = portfolioHistory pos @
           [cash pos' + real_of_int (calls pos') * marketPrice data1]"
proof (cases "bids data = []")
  case True
  with assms(1) have "data1 = broadcastPositionsAndSharpe data"
    by (simp add: processRoundBids_empty)
  then show ?thesis
    using assms(2) by - (rule exI[of _ pos], simp add: positions_broadcast)
next
  case False
  define srt where "srt = sortBids (currentPromptType data) (bids data)"
  define c where "c = snd (srt ! nat (medianIndex srt))"
  define ex where "ex = executeBids (currentPromptType data) c srt (positions data)"
  from assms(1) False have d1: "data1 =
      (broadcastPositionsAndSharpe (data\<lparr>positions := fst ex, marketPrice := c\<rparr>))\<lparr>bids := []\<rparr>"
    by (simp add: processRoundBids_nonempty Let_def srt_def c_def ex_def)
  from fold_executeBid_history[of "(positions data, [])" u pos "currentPromptType data" c srt]
    assms(2)
  obtain p where p: "obj_get (fst ex) u = Some p" "portfolioHistory p = portfolioHistory pos"
    by (auto simp: ex_def executeBids_def)
  have other: "u \<notin> fst ` set (bids data) \<longrightarrow> p = pos"
  proof
    assume "u \<notin> fst ` set (bids data)"
    then have "u \<notin> fst ` set srt" by (simp add: srt_def set_sortBids)
    from fold_executeBid_other[OF this, of "currentPromptType data" c "(positions data, [])"]
    have "obj_get (fst ex) u = obj_get (positions data) u"
      by (simp add: ex_def executeBids_def)
    with p(1) assms(2) show "p = pos" by simp
  qed
  show ?thesis
    unfolding d1 using p other
    by - (rule exI[of _ p], simp add: positions_broadcast)
qed


lemma kept_same: "positionOf s room u = Some pos \<Longrightarrow> history_kept s room u pos"
  by (auto simp: history_kept_def)

lemma kept_other:
  "positionOf s room u = Some pos \<Longrightarrow> r \<noteq> room \<Longrightarrow>
     history_kept (s\<lparr>roomsData := (roomsData s)(r \<mapsto> d)\<rparr>) room u pos"
  by (auto simp: history_kept_def positionOf_update_other)

lemma kept_update:
  "obj_get (positions d) u = Some pos' \<Longrightarrow> prefix (portfolioHistory pos) (portfolioHistory pos')
     \<Longrightarrow> history_kept (s\<lparr>roomsData := (roomsData s)(room \<mapsto> d)\<rparr>) room u pos"
  by (auto simp: history_kept_def positionOf_update_same)

lemma room_start_kept:
  assumes "positionOf s room u = Some pos" and "room \<in> rooms s"
  shows "history_kept (snd (room_start s r a)) room u pos"
proof (cases "r = [] \<or> r \<in> rooms s")
  case True
  then show ?thesis using assms(1) by (auto simp: room_start_def kept_same)
next
  case False
  with assms(2) have ne: "r \<noteq> room" by auto
  have "positionOf (snd (room_start s r a)) room u = positionOf s room u"
    using False ne by (simp add: room_start_def positionOf_def)
  with assms(1) show ?thesis by (simp add: kept_same)
qed

lemma startGame_kept:
  assumes "positionOf s room u = Some pos"
  shows "history_kept (startGame s a) room u pos"
proof -
  from positionOf_SomeD[OF assms] obtain data where
    d: "roomsData s room = Some data" "obj_get (positions data) u = Some pos" by blast
  show ?thesis
  proof (cases "\<exists>r d0. room_key (js_get (adminToRoom s) a) = Some r \<and> roomsData s r = Some d0
                  \<and> \<not> started d0")
    case False
    then have "startGame s a = s"
      by (auto simp: startGame_def split: option.splits)
    with assms show ?thesis by (simp add: kept_same)
  next
    case True
    then obtain r d0 where h: "room_key (js_get (adminToRoom s) a) = Some r"
      "roomsData s r = Some d0" "\<not> started d0" by blast
    show ?thesis
    proof (cases "r = room")
      case False
      then show ?thesis
        unfolding startGame_run_key[OF h] using assms by (rule_tac kept_other)
    next
      case True
      with h d have d0: "d0 = data" by simp
      have "obj_get (map (\<lambda>(uid, p). (uid, (\<lambda>uid p. p\<lparr>portfolioHistory := portfolioHistory p @
                  [cash p + real_of_int (calls p) * marketPrice data]\<rparr>) uid p))
              (positions data)) u
            = Some (pos\<lparr>portfolioHistory := portfolioHistory pos @
                  [cash pos + real_of_int (calls pos) * marketPrice data]\<rparr>)"
        by (simp only: obj_get_map_values d(2) option.map)
      then show ?thesis
        unfolding startGame_run_key[OF h] True[symmetric] d0
        by (intro kept_update[where pos' = "pos\<lparr>portfolioHistory := portfolioHistory pos @
                  [cash pos + real_of_int (calls pos) * marketPrice data]\<rparr>"]) simp_all
    qed
  qed
qed

lemma roundUpdate_kept:
  assumes "positionOf s room u = Some pos" and "roundUpdate s a = Inr (tr, s')"
  shows "history_kept s' room u pos"
proof -
  from positionOf_SomeD[OF assms(1)] obtain data where
    d: "roomsData s room = Some data" "obj_get (positions data) u = Some pos" by blast
  show ?thesis
  proof (cases "room_key (js_get (adminToRoom s) a)")
    case None
    with assms(2) have "s' = s" by (simp add: roundUpdate_def)
    with assms(1) show ?thesis by (simp add: kept_same)
  next
    case (Some r)
    from assms(2) Some obtain d0 where d0: "roomsData s r = Some d0"
      by (cases "roomsData s r") (auto simp: roundUpdate_def)
    from roundUpdate_run_key[OF Some d0] assms(2) obtain data1 where
      p: "processRoundBids d0 = Inr (tr, data1)"
      and s': "s' = s\<lparr>roomsData := (roomsData s)(r \<mapsto>
                 data1\<lparr>promptCount := promptCount d0 + 1,
                       currentPromptType :=
                         (if (promptCount d0 + 1) mod 2 = 0 then SellCall else BuyCall)\<rparr>)\<rparr>"
      by auto
    show ?thesis
    proof (cases "r = room")
      case False
      then show ?thesis unfolding s' using assms(1) by (rule_tac kept_other)
    next
      case True
      with d0 d have "d0 = data" by simp
      with processRoundBids_history[OF p, of u pos] d(2)
      obtain pos' where "obj_get (positions data1) u = Some pos'"
        "prefix (portfolioHistory pos) (portfolioHistory pos')"
        by auto
      then show ?thesis
        unfolding s' True by (intro kept_update[where pos' = pos']) simp_all
    qed
  qed
qed

lemma join_room_kept:
  assumes "positionOf s room u = Some pos"
  shows "history_kept (snd (join_room s r name i)) room u pos"
proof -
  from positionOf_SomeD[OF assms] obtain data where
    d: "roomsData s room = Some data" "obj_get (positions data) u = Some pos" by blast
  show ?thesis
  proof (cases "\<exists>d0. name \<noteq> [] \<and> r \<in> rooms s \<and> roomsData s r = Some d0
                  \<and> \<not> (started d0 \<and> gameOver d0) \<and> name \<notin> snd ` set (usernames d0)")
    case False
    then have "snd (join_room s r name i) = s"
      by (auto simp: join_room_def split: option.splits)
    with assms show ?thesis by (simp add: kept_same)
  next
    case True
    then obtain d0 where h: "name \<noteq> []" "r \<in> rooms s" "roomsData s r = Some d0"
      "\<not> (started d0 \<and> gameOver d0)" "name \<notin> snd ` set (usernames d0)" by blast
    show ?thesis
    proof (cases "r = room")
      case False
      then show ?thesis
        using assms
        by (simp add: join_room_success[OF h] history_kept_def positionOf_def)
    next
      case True
      with h d have d0: "d0 = data" by simp
      note js = join_room_success[OF h, unfolded True d0]
      have "obj_get (case obj_read (positions data) i of
                       Undefined \<Rightarrow> obj_assign i
                         \<lparr>cash = 100, calls = 0, portfolioHistory = [], sharpe = None\<rparr>
                         (positions data)
                     | _ \<Rightarrow> positions data) u = Some pos"
        using d(2)
        by (auto simp: obj_read_cases obj_assign_def obj_get_obj_set
            split: js_value.splits option.splits if_splits)
      then show ?thesis
        unfolding True js by (auto simp: history_kept_def positionOf_def)
    qed
  qed
qed

lemma submitBid_kept:
  assumes "positionOf s room u = Some pos"
  shows "history_kept (submitBid s b i) room u pos"
  using assms
  by (auto simp: submitBid_def history_kept_def positionOf_def split: option.splits)

lemma finalizeGame_kept:
  assumes "positionOf s room u = Some pos"
  shows "history_kept (snd (finalizeGame s a px)) room u pos"
proof -
  from positionOf_SomeD[OF assms] obtain data where
    d: "roomsData s room = Some data" "obj_get (positions data) u = Some pos" by blast
  show ?thesis
  proof (cases "\<exists>r d0. room_key (js_get (adminToRoom s) a) = Some r \<and> roomsData s r = Some d0")
    case False
    then have "snd (finalizeGame s a px) = s"
      by (auto simp: finalizeGame_def split: option.splits)
    with assms show ?thesis by (simp add: kept_same)
  next
    case True
    then obtain r d0 where h: "room_key (js_get (adminToRoom s) a) = Some r"
      "roomsData s r = Some d0" by blast
    show ?thesis
    proof (cases "r = room")
      case False
      then show ?thesis
        using assms by (simp add: finalizeGame_run_key[OF h] kept_other)
    next
      case True
      with h d have d0: "d0 = data" by simp
      show ?thesis
        unfolding finalizeGame_run_key[OF h] True[symmetric] d0 snd_conv
        by (rule kept_update[where pos' = "fst (finalizePosition (data\<lparr>gameOver := True\<rparr>) px (u, pos))"])
           (simp_all add: obj_get_map_entries d(2) finalizePosition_def Let_def)
    qed
  qed
qed

lemma destroyRoom_kept:
  assumes "positionOf s room u = Some pos"
  shows "history_kept (destroyRoom s r a) room u pos"
  using assms
  by (auto simp: destroyRoom_def history_kept_def positionOf_def map_delete_def
      split: option.splits)

lemma handle_kept:
  assumes "handle s msg = Inr s'" and "room \<in> rooms s"
      and "positionOf s room u = Some pos"
  shows "history_kept s' room u pos"
proof (cases msg)
  case (RoomStart r a)
  with assms show ?thesis using room_start_kept by auto
next
  case (StartGame a)
  with assms show ?thesis using startGame_kept by auto
next
  case (RoundUpdate a)
  with assms(1) obtain tr where "roundUpdate s a = Inr (tr, s')"
    by (auto split: sum.splits)
  from roundUpdate_kept[OF assms(3) this] show ?thesis .
next
  case (JoinRoom r n i)
  with assms show ?thesis using join_room_kept by auto
next
  case (SubmitBid b i)
  with assms show ?thesis using submitBid_kept by auto
next
  case (FinalizeGame a px)
  with assms show ?thesis using finalizeGame_kept by auto
next
  case (Disconnect i)
  with assms show ?thesis using destroyRoom_kept[of s room u pos]
    by (auto simp: disconnect_def Let_def kept_same split: option.splits)
next
  case (HeartbeatTimeout i)
  with assms show ?thesis using destroyRoom_kept by (auto simp: heartbeatTimeout_def)
qed

lemma wellformed_initServer: "objects_wellformed initServer"
  by (simp add: objects_wellformed_def initServer_def)

lemma wellformed_update:
  assumes "objects_wellformed s"
      and "distinct (map fst (usernames d))" "distinct (map fst (positions d))"
          "distinct (map fst (bids d))"
  shows "objects_wellformed (s\<lparr>roomsData := (roomsData s)(r \<mapsto> d)\<rparr>)"
  using assms by (auto simp: objects_wellformed_def)

lemma wellformed_other:
  "objects_wellformed s \<Longrightarrow> roomsData s' = roomsData s \<Longrightarrow> objects_wellformed s'"
  by (simp add: objects_wellformed_def)

lemma wellformedD:
  "objects_wellformed s \<Longrightarrow> roomsData s room = Some data \<Longrightarrow>
     distinct (map fst (usernames data)) \<and> distinct (map fst (positions data))
     \<and> distinct (map fst (bids data))"
  by (simp add: objects_wellformed_def)

lemma keys_map_values: "map fst (map (\<lambda>(k, v). (k, f k v)) kvs) = map fst kvs"
  by (induction kvs) auto

lemma keys_comp_values: "map (fst \<circ> (\<lambda>(k, v). (k, f k v))) kvs = map fst kvs"
  by (induction kvs) auto

lemma keys_comp_entries: "map (fst \<circ> (\<lambda>e. (fst e, h e))) kvs = map fst kvs"
  by (induction kvs) auto

lemma broadcast_frame:
  "bids (broadcastPositionsAndSharpe d) = bids d
   \<and> usernames (broadcastPositionsAndSharpe d) = usernames d"
  by (simp add: broadcastPositionsAndSharpe_def applyRiskFreeAndRecord_def Let_def)

lemma keys_map_entries: "map fst (map (\<lambda>e. (fst e, h e)) kvs) = map fst kvs"
  by (induction kvs) auto

lemma distinct_executeBid:
  "distinct (map fst (fst acc)) \<Longrightarrow> distinct (map fst (fst (executeBid pt c bid acc)))"
  by (cases acc; cases bid)
     (simp add: executeBid_def Let_def distinct_obj_set split: js_value.splits)

lemma distinct_fold_executeBid:
  "distinct (map fst (fst acc)) \<Longrightarrow>
     distinct (map fst (fst (fold (executeBid pt c) xs acc)))"
  by (induction xs arbitrary: acc) (simp_all add: distinct_executeBid)

lemma processRoundBids_wellformed:
  assumes "processRoundBids data = Inr (tr, data1)"
      and "distinct (map fst (positions data))"
  shows "distinct (map fst (positions data1)) \<and> bids data1 = []
       \<and> usernames data1 = usernames data"
proof (cases "bids data = []")
  case True
  with assms show ?thesis
    by (auto simp: processRoundBids_empty keys_broadcast broadcast_frame)
next
  case False
  with assms(1) have d1: "data1 =
      (broadcastPositionsAndSharpe
         (data\<lparr>positions := fst (executeBids (currentPromptType data)
              (snd (sortBids (currentPromptType data) (bids data) !
                   nat (medianIndex (sortBids (currentPromptType data) (bids data)))))
              (sortBids (currentPromptType data) (bids data)) (positions data)),
            marketPrice := snd (sortBids (currentPromptType data) (bids data) !
                   nat (medianIndex (sortBids (currentPromptType data) (bids data))))\<rparr>))
        \<lparr>bids := []\<rparr>"
    by (simp add: processRoundBids_nonempty Let_def)
  show ?thesis
    unfolding d1 using assms(2)
    by (simp add: keys_broadcast executeBids_def distinct_fold_executeBid broadcast_frame)
qed

lemma handle_wellformed:
  assumes "handle s msg = Inr s'" and "objects_wellformed s"
  shows "objects_wellformed s'"
proof (cases msg)
  case (RoomStart r a)
  with assms show ?thesis
    by (auto simp: room_start_def initRoomData_def objects_wellformed_def split: if_splits)
next
  case (StartGame a)
  show ?thesis
  proof (cases "\<exists>r d0. room_key (js_get (adminToRoom s) a) = Some r \<and> roomsData s r = Some d0
                  \<and> \<not> started d0")
    case False
    then have "startGame s a = s"
      by (auto simp: startGame_def split: option.splits)
    with assms StartGame show ?thesis by simp
  next
    case True
    then obtain r d0 where h: "room_key (js_get (adminToRoom s) a) = Some r"
      "roomsData s r = Some d0" "\<not> started d0" by blast
    from wellformedD[OF assms(2) h(2)] assms StartGame show ?thesis
      by (auto simp: startGame_run_key[OF h] keys_comp_values intro!: wellformed_update)
  qed
next
  case (RoundUpdate a)
  with assms(1) obtain tr where ru: "roundUpdate s a = Inr (tr, s')"
    by (auto split: sum.splits)
  show ?thesis
  proof (cases "room_key (js_get (adminToRoom s) a)")
    case None
    with ru have "s' = s" by (simp add: roundUpdate_def)
    with assms(2) show ?thesis by simp
  next
    case (Some r)
    from ru Some obtain d0 where d0: "roomsData s r = Some d0"
      by (cases "roomsData s r") (auto simp: roundUpdate_def)
    from roundUpdate_run_key[OF Some d0] ru obtain d1 where
      p: "processRoundBids d0 = Inr (tr, d1)" and
      s': "s' = s\<lparr>roomsData := (roomsData s)(r \<mapsto>
                 d1\<lparr>promptCount := promptCount d0 + 1,
                       currentPromptType :=
                         (if (promptCount d0 + 1) mod 2 = 0 then SellCall else BuyCall)\<rparr>)\<rparr>"
      by auto
    from wellformedD[OF assms(2) d0] processRoundBids_wellformed[OF p]
    show ?thesis unfolding s' by (intro wellformed_update[OF assms(2)]) simp_all
  qed
next
  case (JoinRoom r n i)
  show ?thesis
  proof (cases "\<exists>d0. n \<noteq> [] \<and> r \<in> rooms s \<and> roomsData s r = Some d0
                  \<and> \<not> (started d0 \<and> gameOver d0) \<and> n \<notin> snd ` set (usernames d0)")
    case False
    then have "snd (join_room s r n i) = s"
      by (auto simp: join_room_def split: option.splits)
    with assms JoinRoom show ?thesis by simp
  next
    case True
    then obtain d0 where h: "n \<noteq> []" "r \<in> rooms s" "roomsData s r = Some d0"
      "\<not> (started d0 \<and> gameOver d0)" "n \<notin> snd ` set (usernames d0)" by blast
    from wellformedD[OF assms(2) h(3)] assms JoinRoom show ?thesis
      by (auto simp: join_room_success[OF h] objects_wellformed_def distinct_obj_set
          obj_assign_def split: js_value.splits if_splits)
  qed
next
  case (SubmitBid b i)
  with assms show ?thesis
    by (auto simp: submitBid_def objects_wellformed_def distinct_obj_set obj_assign_def
        split: option.splits if_splits)
next
  case (FinalizeGame a px)
  show ?thesis
  proof (cases "\<exists>r d0. room_key (js_get (adminToRoom s) a) = Some r \<and> roomsData s r = Some d0")
    case False
    then have "snd (finalizeGame s a px) = s"
      by (auto simp: finalizeGame_def split: option.splits)
    with assms FinalizeGame show ?thesis by simp
  next
    case True
    then obtain r d0 where h: "room_key (js_get (adminToRoom s) a) = Some r"
      "roomsData s r = Some d0" by blast
    from wellformedD[OF assms(2) h(2)] assms FinalizeGame show ?thesis
      by (auto simp: finalizeGame_run_key[OF h] keys_comp_entries intro!: wellformed_update)
  qed
next
  case (Disconnect i)
  with assms show ?thesis
    by (auto simp: disconnect_def destroyRoom_def objects_wellformed_def map_delete_def Let_def
        split: option.splits if_splits)
next
  case (HeartbeatTimeout i)
  with assms show ?thesis
    by (auto simp: heartbeatTimeout_def destroyRoom_def objects_wellformed_def map_delete_def
        split: option.splits if_splits)
qed

lemma ex_ctor_bid_eval:
  "ex_ctor_bid = \<lparr> rooms = {''room''}, adminToRoom = [''adm'' \<mapsto> ''room''],
      playerToRoom = [''constructor'' \<mapsto> ''room''], roomToAdmin = [''room'' \<mapsto> ''adm''],
      roomsData = [''room'' \<mapsto>
        \<lparr> admin = ''adm'', usernames = [(''constructor'', ''ann'')], started = True,
          gameOver = False, positions = [], bids = [(''constructor'', 5)], promptCount = 1,
          strikePrice = 100, currentPromptType = SellCall, marketPrice = 0 \<rparr>] \<rparr>"
  by (simp add: ex_ctor_bid_def room_start_def join_room_def startGame_def submitBid_def
      initServer_def initRoomData_def js_defs Let_def)

lemma ordinary_bid_executes_iff_within_clearing_price:
  assumes "bids data \<noteq> []" and "distinct (map fst (bids data))" and "(u, p) \<in> set (bids data)"
      and "obj_get (positions data) u \<noteq> None \<or> u \<notin> set object_prototype_keys"
  shows "let promptType = currentPromptType data;
             srt = sortBids promptType (bids data);
             clearingPrice = snd (srt ! nat (medianIndex srt));
             traded = executeBids promptType clearingPrice srt (positions data);
             before = (case obj_get (positions data) u of None \<Rightarrow> newPosition | Some q \<Rightarrow> q)
         in (\<exists>data'. processRoundBids data = Inr (Some (snd traded), data')
               \<and> marketPrice data' = clearingPrice
               \<and> map_option calls (obj_get (positions data') u)
                    = map_option calls (obj_get (fst traded) u)
               \<and> map_option cash (obj_get (positions data') u)
                    = map_option (\<lambda>q. cash q * (1 + 0.05 / 60)) (obj_get (fst traded) u))
          \<and> (promptType = SellCall \<longrightarrow>
                (obj_get (snd traded) u = Some (Executed p)) = (p \<ge> clearingPrice)
              \<and> (obj_get (snd traded) u = Some NotExecuted) = (p < clearingPrice)
              \<and> (p \<ge> clearingPrice \<longrightarrow> obj_get (fst traded) u =
                    Some (before\<lparr>cash := cash before - p, calls := calls before + 1\<rparr>))
              \<and> (p < clearingPrice \<longrightarrow> obj_get (fst traded) u = obj_get (positions data) u))
          \<and> (promptType = BuyCall \<longrightarrow>
                (obj_get (snd traded) u = Some (Executed p)) = (p \<le> clearingPrice)
              \<and> (obj_get (snd traded) u = Some NotExecuted) = (p > clearingPrice)
              \<and> (p \<le> clearingPrice \<longrightarrow> obj_get (fst traded) u =
                    Some (before\<lparr>cash := cash before + p, calls := calls before - 1\<rparr>))
              \<and> (p > clearingPrice \<longrightarrow> obj_get (fst traded) u = obj_get (positions data) u))"
proof -
  define promptType where "promptType = currentPromptType data"
  define srt where "srt = sortBids promptType (bids data)"
  define clearingPrice where "clearingPrice = snd (srt ! nat (medianIndex srt))"
  define traded where "traded = executeBids promptType clearingPrice srt (positions data)"
  have dist: "distinct (map fst srt)"
    using assms(2) by (simp add: srt_def distinct_sortBids)
  have mem: "(u, p) \<in> set srt"
    using assms(3) by (simp add: srt_def set_sortBids)
  have ok: "obj_get (fst (positions data, [] :: trade_result obj)) u \<noteq> None
              \<or> u \<notin> set object_prototype_keys"
    using assms(4) by simp
  note step = fold_executeBid_bid[OF dist mem ok, of promptType clearingPrice,
      folded executeBids_def, folded traded_def]
  have run: "processRoundBids data =
      Inr (Some (snd traded),
           (broadcastPositionsAndSharpe
              (data\<lparr>positions := fst traded, marketPrice := clearingPrice\<rparr>))\<lparr>bids := []\<rparr>)"
    using processRoundBids_nonempty[OF assms(1)]
    by (simp add: Let_def promptType_def srt_def clearingPrice_def traded_def)
  have final: "\<exists>data'. processRoundBids data = Inr (Some (snd traded), data')
               \<and> marketPrice data' = clearingPrice
               \<and> map_option calls (obj_get (positions data') u)
                    = map_option calls (obj_get (fst traded) u)
               \<and> map_option cash (obj_get (positions data') u)
                    = map_option (\<lambda>q. cash q * (1 + 0.05 / 60)) (obj_get (fst traded) u)"
    unfolding run by (simp add: positions_broadcast option.map_comp comp_def)
  have sell: "promptType = SellCall \<longrightarrow>
                (obj_get (snd traded) u = Some (Executed p)) = (p \<ge> clearingPrice)
              \<and> (obj_get (snd traded) u = Some NotExecuted) = (p < clearingPrice)
              \<and> (p \<ge> clearingPrice \<longrightarrow> obj_get (fst traded) u =
                    Some ((case obj_get (positions data) u of None \<Rightarrow> newPosition | Some q \<Rightarrow> q)
                          \<lparr>cash := cash (case obj_get (positions data) u of None \<Rightarrow> newPosition | Some q \<Rightarrow> q) - p,
                           calls := calls (case obj_get (positions data) u of None \<Rightarrow> newPosition | Some q \<Rightarrow> q) + 1\<rparr>))
              \<and> (p < clearingPrice \<longrightarrow> obj_get (fst traded) u = obj_get (positions data) u)"
    using step by (auto simp: Let_def)
  have buy: "promptType = BuyCall \<longrightarrow>
                (obj_get (snd traded) u = Some (Executed p)) = (p \<le> clearingPrice)
              \<and> (obj_get (snd traded) u = Some NotExecuted) = (p > clearingPrice)
              \<and> (p \<le> clearingPrice \<longrightarrow> obj_get (fst traded) u =
                    Some ((case obj_get (positions data) u of None \<Rightarrow> newPosition | Some q \<Rightarrow> q)
                          \<lparr>cash := cash (case obj_get (positions data) u of None \<Rightarrow> newPosition | Some q \<Rightarrow> q) + p,
                           calls := calls (case obj_get (positions data) u of None \<Rightarrow> newPosition | Some q \<Rightarrow> q) - 1\<rparr>))
              \<and> (p > clearingPrice \<longrightarrow> obj_get (fst traded) u = obj_get (positions data) u)"
    using step by (auto simp: Let_def)
  show ?thesis
    unfolding Let_def
    using final sell buy
    unfolding traded_def clearingPrice_def srt_def promptType_def
    by blast
qed

lemma processRoundBids_valuation:
  assumes "processRoundBids data = Inr (tr, data1)"
      and "obj_get (positions data) u = Some pos"
  shows "\<exists>traded pos'. obj_get (tradedPositions data) u = Some traded
      \<and> obj_get (positions data1) u = Some pos'
      \<and> portfolioHistory traded = portfolioHistory pos
      \<and> (u \<notin> fst ` set (bids data) \<longrightarrow> traded = pos)
      \<and> (\<forall>p. distinct (map fst (bids data)) \<and> (u, p) \<in> set (bids data) \<longrightarrow>
            traded =
              (if (if currentPromptType data = SellCall then marketPrice data1 \<le> p
                   else p \<le> marketPrice data1)
               then (if currentPromptType data = SellCall
                     then pos\<lparr>cash := cash pos - p, calls := calls pos + 1\<rparr>
                     else pos\<lparr>cash := cash pos + p, calls := calls pos - 1\<rparr>)
               else pos))
      \<and> cash pos' = cash traded * (1 + 0.05 / 60)
      \<and> calls pos' = calls traded
      \<and> portfolioHistory pos' = portfolioHistory pos @
           [cash pos' + real_of_int (calls pos') * marketPrice data1]"
proof (cases "bids data = []")
  case True
  with assms(1) have "data1 = broadcastPositionsAndSharpe data"
    by (simp add: processRoundBids_empty)
  then show ?thesis
    using assms(2) True
    by - (rule exI[of _ pos], simp add: positions_broadcast tradedPositions_def)
next
  case False
  define srt where "srt = sortBids (currentPromptType data) (bids data)"
  define c where "c = snd (srt ! nat (medianIndex srt))"
  define ex where "ex = executeBids (currentPromptType data) c srt (positions data)"
  have tp: "tradedPositions data = fst ex"
    using False by (simp add: tradedPositions_def Let_def srt_def c_def ex_def)
  from assms(1) False have d1: "data1 =
      (broadcastPositionsAndSharpe (data\<lparr>positions := fst ex, marketPrice := c\<rparr>))\<lparr>bids := []\<rparr>"
    by (simp add: processRoundBids_nonempty Let_def srt_def c_def ex_def)
  have mp: "marketPrice data1 = c" by (simp add: d1)
  from fold_executeBid_history[of "(positions data, [])" u pos "currentPromptType data" c srt]
    assms(2)
  obtain t where t: "obj_get (fst ex) u = Some t" "portfolioHistory t = portfolioHistory pos"
    by (auto simp: ex_def executeBids_def)
  have other: "u \<notin> fst ` set (bids data) \<longrightarrow> t = pos"
  proof
    assume "u \<notin> fst ` set (bids data)"
    then have "u \<notin> fst ` set srt" by (simp add: srt_def set_sortBids)
    from fold_executeBid_other[OF this, of "currentPromptType data" c "(positions data, [])"]
    have "obj_get (fst ex) u = obj_get (positions data) u"
      by (simp add: ex_def executeBids_def)
    with t(1) assms(2) show "t = pos" by simp
  qed
  have bidder: "\<forall>p. distinct (map fst (bids data)) \<and> (u, p) \<in> set (bids data) \<longrightarrow>
            t = (if (if currentPromptType data = SellCall then c \<le> p else p \<le> c)
                 then (if currentPromptType data = SellCall
                       then pos\<lparr>cash := cash pos - p, calls := calls pos + 1\<rparr>
                       else pos\<lparr>cash := cash pos + p, calls := calls pos - 1\<rparr>)
                 else pos)"
  proof (intro allI impI)
    fix p
    assume h: "distinct (map fst (bids data)) \<and> (u, p) \<in> set (bids data)"
    then have dist: "distinct (map fst srt)" and mem: "(u, p) \<in> set srt"
      by (simp_all add: srt_def distinct_sortBids set_sortBids)
    have ok: "obj_get (fst (positions data, [] :: trade_result obj)) u \<noteq> None
                \<or> u \<notin> set object_prototype_keys"
      using assms(2) by simp
    from fold_executeBid_bid[OF dist mem ok, of "currentPromptType data" c,
        folded executeBids_def, folded ex_def] t(1) assms(2)
    show "t = (if (if currentPromptType data = SellCall then c \<le> p else p \<le> c)
                 then (if currentPromptType data = SellCall
                       then pos\<lparr>cash := cash pos - p, calls := calls pos + 1\<rparr>
                       else pos\<lparr>cash := cash pos + p, calls := calls pos - 1\<rparr>)
                 else pos)"
      by (auto simp: Let_def split: if_splits)
  qed
  have val: "\<exists>pos'. obj_get (positions data1) u = Some pos'
      \<and> cash pos' = cash t * (1 + 0.05 / 60)
      \<and> calls pos' = calls t
      \<and> portfolioHistory pos' = portfolioHistory pos @
           [cash pos' + real_of_int (calls pos') * marketPrice data1]"
    unfolding d1 using t by (simp add: positions_broadcast)
  show ?thesis
    unfolding tp mp using t other bidder val[unfolded mp]
    by - (rule exI[of _ t], blast)
qed

lemma destroyRoom_data:
  "roomsData (destroyRoom s rv a) room = Some data' \<Longrightarrow> roomsData s room = Some data'"
  by (auto simp: destroyRoom_def map_delete_def split: option.splits if_splits)

lemma handle_round_step:
  assumes "handle s msg = Inr s'" and "roomsData s' room = Some data'"
  shows "(\<exists>data. roomsData s room = Some data \<and> started data' = started data
            \<and> promptCount data' = promptCount data
            \<and> currentPromptType data' = currentPromptType data)
       \<or> (\<exists>a data. msg = StartGame a \<and> roomsData s room = Some data \<and> \<not> started data
            \<and> started data' \<and> promptCount data' = 1 \<and> currentPromptType data' = SellCall)
       \<or> (\<exists>a data. msg = RoundUpdate a \<and> roomsData s room = Some data
            \<and> started data' = started data \<and> promptCount data' = promptCount data + 1
            \<and> currentPromptType data' =
                 (if even (promptCount data') then SellCall else BuyCall))
       \<or> (\<exists>a. msg = RoomStart room a \<and> room \<notin> rooms s \<and> data' = initRoomData a)"
proof (cases msg)
  case (RoomStart r a)
  with assms show ?thesis
    by (auto simp: room_start_def split: if_splits)
next
  case (StartGame a)
  show ?thesis
  proof (cases "\<exists>r d0. room_key (js_get (adminToRoom s) a) = Some r \<and> roomsData s r = Some d0
                  \<and> \<not> started d0")
    case False
    then have "startGame s a = s"
      by (auto simp: startGame_def split: option.splits)
    with assms StartGame show ?thesis by auto
  next
    case True
    then obtain r d0 where h: "room_key (js_get (adminToRoom s) a) = Some r"
      "roomsData s r = Some d0" "\<not> started d0" by blast
    from assms StartGame h show ?thesis
      by (cases "r = room") (auto simp: startGame_run_key[OF h])
  qed
next
  case (RoundUpdate a)
  with assms(1) obtain tr where ru: "roundUpdate s a = Inr (tr, s')"
    by (auto split: sum.splits)
  show ?thesis
  proof (cases "room_key (js_get (adminToRoom s) a)")
    case None
    with ru have "s' = s" by (simp add: roundUpdate_def)
    with assms(2) show ?thesis by auto
  next
    case (Some r)
    from ru Some obtain d0 where d0: "roomsData s r = Some d0"
      by (cases "roomsData s r") (auto simp: roundUpdate_def)
    from roundUpdate_run_key[OF Some d0] ru obtain d1 where
      p: "processRoundBids d0 = Inr (tr, d1)" and
      s': "s' = s\<lparr>roomsData := (roomsData s)(r \<mapsto>
                 d1\<lparr>promptCount := promptCount d0 + 1,
                       currentPromptType :=
                         (if (promptCount d0 + 1) mod 2 = 0 then SellCall else BuyCall)\<rparr>)\<rparr>"
      by auto
    from processRoundBids_frame[of d0] p have st: "started d1 = started d0" by auto
    show ?thesis
    proof (cases "r = room")
      case False
      with assms(2) s' show ?thesis by auto
    next
      case True
      with assms(2) s' d0 st RoundUpdate show ?thesis
        by (auto simp: even_iff_mod_2_eq_zero)
    qed
  qed
next
  case (JoinRoom r n i)
  show ?thesis
  proof (cases "\<exists>d0. n \<noteq> [] \<and> r \<in> rooms s \<and> roomsData s r = Some d0
                  \<and> \<not> (started d0 \<and> gameOver d0) \<and> n \<notin> snd ` set (usernames d0)")
    case False
    then have "snd (join_room s r n i) = s"
      by (auto simp: join_room_def split: option.splits)
    with assms JoinRoom show ?thesis by auto
  next
    case True
    then obtain d0 where h: "n \<noteq> []" "r \<in> rooms s" "roomsData s r = Some d0"
      "\<not> (started d0 \<and> gameOver d0)" "n \<notin> snd ` set (usernames d0)" by blast
    from assms(1) JoinRoom have "s' = snd (join_room s r n i)" by simp
    then have s': "roomsData s' = (roomsData s)(r \<mapsto>
          d0\<lparr>usernames := obj_assign i n (usernames d0),
               positions :=
                 (case obj_read (positions d0) i of
                    Undefined \<Rightarrow> obj_assign i
                       \<lparr>cash = 100, calls = 0, portfolioHistory = [], sharpe = None\<rparr>
                       (positions d0)
                  | _ \<Rightarrow> positions d0)\<rparr>)"
      unfolding join_room_success[OF h] by simp
    show ?thesis
    proof (cases "r = room")
      case False
      with assms(2) s' show ?thesis by auto
    next
      case True
      with assms(2) s' h(3) show ?thesis
        by auto
    qed
  qed
next
  case (SubmitBid b i)
  with assms show ?thesis
    by (auto simp: submitBid_def split: option.splits if_splits)
next
  case (FinalizeGame a px)
  show ?thesis
  proof (cases "\<exists>r d0. room_key (js_get (adminToRoom s) a) = Some r \<and> roomsData s r = Some d0")
    case False
    then have "snd (finalizeGame s a px) = s"
      by (auto simp: finalizeGame_def split: option.splits)
    with assms FinalizeGame show ?thesis by auto
  next
    case True
    then obtain r d0 where h: "room_key (js_get (adminToRoom s) a) = Some r"
      "roomsData s r = Some d0" by blast
    from assms FinalizeGame h show ?thesis
      by (cases "r = room") (auto simp: finalizeGame_run_key[OF h])
  qed
next
  case (Disconnect i)
  with assms have "roomsData s room = Some data'"
    by (auto simp: disconnect_def Let_def split: option.splits dest: destroyRoom_data)
  then show ?thesis by auto
next
  case (HeartbeatTimeout i)
  with assms have "roomsData s room = Some data'"
    by (auto simp: heartbeatTimeout_def dest: destroyRoom_data)
  then show ?thesis by auto
qed

lemma handle_direction_rule:
  assumes "handle s msg = Inr s'"
      and "\<forall>room data. roomsData s room = Some data \<longrightarrow> direction_rule data"
      and "roomsData s' room = Some data'"
  shows "direction_rule data'"
proof -
  from handle_round_step[OF assms(1,3)] consider
    (same) data where "roomsData s room = Some data" "started data' = started data"
      "promptCount data' = promptCount data" "currentPromptType data' = currentPromptType data"
  | (start) "started data'" "promptCount data' = 1" "currentPromptType data' = SellCall"
  | (advance) data where "roomsData s room = Some data" "started data' = started data"
      "promptCount data' = promptCount data + 1"
      "currentPromptType data' = (if even (promptCount data') then SellCall else BuyCall)"
  | (fresh) a where "data' = initRoomData a"
    by blast
  then show ?thesis
  proof cases
    case same
    from assms(2) same(1) have "direction_rule data" by blast
    with same show ?thesis by (simp add: direction_rule_def)
  next
    case start
    then show ?thesis by (simp add: direction_rule_def)
  next
    case advance
    from assms(2) advance(1) have "direction_rule data" by blast
    with advance show ?thesis by (auto simp: direction_rule_def)
  next
    case fresh
    then show ?thesis by (simp add: direction_rule_def initRoomData_def)
  qed
qed

lemma run_direction_rule:
  "run s msgs = Inr s' \<Longrightarrow>
   \<forall>room data. roomsData s room = Some data \<longrightarrow> direction_rule data \<Longrightarrow>
   \<forall>room data. roomsData s' room = Some data \<longrightarrow> direction_rule data"
proof (induction msgs arbitrary: s)
  case Nil
  then show ?case by simp
next
  case (Cons msg msgs)
  from Cons.prems(1) obtain s1 where h: "handle s msg = Inr s1" and r: "run s1 msgs = Inr s'"
    by (auto split: sum.splits)
  have "\<forall>room data. roomsData s1 room = Some data \<longrightarrow> direction_rule data"
    using handle_direction_rule[OF h Cons.prems(2)] by blast
  from Cons.IH[OF r this] show ?case .
qed

lemmas handler_defs = room_start_def join_room_def startGame_def roundUpdate_def submitBid_def
  initRoomData_def processRoundBids_def sortBids_def js_sort_def js_index_def medianIndex_def
  executeBids_def executeBid_def broadcastPositionsAndSharpe_def applyRiskFreeAndRecord_def
  computeSharpeRatio_def

lemma ex_game_eval:
  "run initServer ex_game = Inr ex_round3"
  "map_option started (roomsData ex_round3 ''room'') = Some True"
  "map_option promptCount (roomsData ex_round3 ''room'') = Some 3"
  by (simp_all add: ex_round3_def ex_game_def initServer_def handler_defs js_defs Let_def)

lemma sharpe_zero_history: "computeSharpeRatio [100, 100, 0, 0] = NaN"
  by (rule computeSharpeRatio_NaN) (auto intro: exI[of _ 2])


section \<open>The claims\<close>

text \<open>
  Claim C1.  A round advance (\<open>roundUpdate\<close>) on a room whose bid object holds \<open>n > 0\<close> bids
  sorts the (playerId, price) pairs, descending by price in a sell-call round and ascending
  in a buy-call round (the sorted list is a permutation of the bids), reads the price at
  index \<open>ceil(n/2) - 1\<close> of the sorted list, which is inside the list, and leaves the room's
  \<open>marketPrice\<close> equal to that price, whatever trades were executed.
\<close>

theorem roundUpdate_sets_marketPrice_to_clearing_price:
  assumes "adminToRoom s adminID = Some room" and "room \<noteq> []"
      and "roomsData s room = Some data" and "bids data \<noteq> []"
  shows "let n = length (bids data);
             srt = sortBids (currentPromptType data) (bids data);
             clearingIndex = nat (\<lceil>real n / 2\<rceil> - 1)
         in mset srt = mset (bids data)
          \<and> (currentPromptType data = SellCall \<longrightarrow> sorted_wrt (\<lambda>a b. snd a \<ge> snd b) srt)
          \<and> (currentPromptType data = BuyCall \<longrightarrow> sorted_wrt (\<lambda>a b. snd a \<le> snd b) srt)
          \<and> clearingIndex < length srt
          \<and> (\<exists>tr s' data'. roundUpdate s adminID = Inr (Some tr, s')
                \<and> roomsData s' room = Some data'
                \<and> marketPrice data' = snd (srt ! clearingIndex))"
proof -
  define srt where "srt = sortBids (currentPromptType data) (bids data)"
  have len: "length srt = length (bids data)"
    by (simp add: srt_def sortBids_length)
  have ne: "srt \<noteq> []" using assms(4) len by auto
  have idx: "nat (\<lceil>real (length (bids data)) / 2\<rceil> - 1) = nat (medianIndex srt)"
    by (simp add: medianIndex_def len)
  have rng: "nat (medianIndex srt) < length srt"
    using medianIndex_range[OF ne] by linarith
  have desc: "currentPromptType data = SellCall \<longrightarrow> sorted_wrt (\<lambda>a b. snd a \<ge> snd b) srt"
    using sortBids_desc[of "bids data"] by (simp add: srt_def)
  have asc: "currentPromptType data = BuyCall \<longrightarrow> sorted_wrt (\<lambda>a b. snd a \<le> snd b) srt"
    using sortBids_asc[of BuyCall "bids data"] by (auto simp: srt_def)
  have run: "\<exists>tr s' data'. roundUpdate s adminID = Inr (Some tr, s')
                \<and> roomsData s' room = Some data'
                \<and> marketPrice data' = snd (srt ! nat (medianIndex srt))"
    using assms by (simp add: roundUpdate_def processRoundBids_nonempty Let_def srt_def)
  show ?thesis
    unfolding Let_def idx srt_def[symmetric]
    using desc asc rng run by (simp add: srt_def sortBids_mset)
qed

theorem roundUpdate_sets_marketPrice_to_clearing_price_witness:
  "\<exists>tr s' data'. roundUpdate ex_server ''adm'' = Inr (Some tr, s')
      \<and> roomsData s' ''room'' = Some data' \<and> marketPrice data' = 10"
  using roundUpdate_sets_marketPrice_to_clearing_price [of ex_server "''adm''" "''room''" ex_data]
  by (simp add: ex_server_def ex_data_def sortBids_def js_sort_def Let_def)

text \<open>
  Claim C2.  For a bidder who has a position, or whose id is no property name of
  \<open>Object.prototype\<close>, the claim holds: the bid executes exactly within the clearing price
  and settles at the bidder's own price (\<open>ordinary_bid_executes_iff_within_clearing_price\<close>).
  It fails for a player id such as \<open>constructor\<close>: \<open>join-room\<close> seeds no position for it and
  the round's test \<open>!data.positions[userID]\<close> finds the inherited property.  In the game
  below that player's bid of 5 is reported executed at 5 and sets the market price, and the
  room has no position whose cash or calls changed.
\<close>

theorem bid_of_inherited_player_id_executes_without_position:
  "playerToRoom ex_ctor_bid ''constructor'' = Some ''room''
   \<and> map_option usernames (roomsData ex_ctor_bid ''room'') = Some [(''constructor'', ''ann'')]
   \<and> map_option bids (roomsData ex_ctor_bid ''room'') = Some [(''constructor'', 5)]
   \<and> map_option positions (roomsData ex_ctor_bid ''room'') = Some []
   \<and> roundUpdate ex_ctor_bid ''adm'' = Inr (Some [(''constructor'', Executed 5)], ex_ctor_after)
   \<and> map_option marketPrice (roomsData ex_ctor_after ''room'') = Some 5
   \<and> map_option positions (roomsData ex_ctor_after ''room'') = Some []"
  by (simp add: ex_ctor_after_def ex_ctor_bid_eval roundUpdate_def
      processRoundBids_def sortBids_def js_sort_def js_index_def medianIndex_def
      executeBids_def executeBid_def broadcastPositionsAndSharpe_def
      applyRiskFreeAndRecord_def js_defs Let_def)

text \<open>
  Claim C3 (as amended).  In every state that a sequence of messages reaches from the empty
  server, a started room's round counter is at least 1 and its direction is sell-call in
  round 1, sell-call in every even round and buy-call in every odd round after the first.
  The counter and the direction of an open room change in two ways only: \<open>startGame\<close> on a
  room that has not started sets them to round 1 and sell-call, and \<open>roundUpdate\<close> adds one to
  the counter and sets the direction by the new counter's parity; joining, bidding,
  finalizing, a disconnect, a missed heartbeat and every message for another room leave them
  as they are.  Rounds 1 and 2 are therefore both sell-call rounds, and the directions
  alternate from round 2 on.
\<close>

theorem round_direction_in_every_run:
  "(run initServer msgs = Inr s \<and> roomsData s room = Some data \<and> started data \<longrightarrow>
      1 \<le> promptCount data
    \<and> currentPromptType data =
        (if promptCount data = 1 \<or> even (promptCount data) then SellCall else BuyCall))
   \<and> (handle s0 msg = Inr s1 \<and> room \<in> rooms s0 \<and> roomsData s0 room = Some d0
        \<and> roomsData s1 room = Some d1 \<longrightarrow>
         (started d1 = started d0 \<and> promptCount d1 = promptCount d0
            \<and> currentPromptType d1 = currentPromptType d0)
       \<or> (\<exists>a. msg = StartGame a \<and> \<not> started d0 \<and> started d1 \<and> promptCount d1 = 1
              \<and> currentPromptType d1 = SellCall)
       \<or> (\<exists>a. msg = RoundUpdate a \<and> started d1 = started d0
              \<and> promptCount d1 = promptCount d0 + 1
              \<and> currentPromptType d1 = (if even (promptCount d1) then SellCall else BuyCall)))"
proof -
  have a: "1 \<le> promptCount data
    \<and> currentPromptType data =
        (if promptCount data = 1 \<or> even (promptCount data) then SellCall else BuyCall)"
    if "run initServer msgs = Inr s" "roomsData s room = Some data" "started data"
  proof -
    have "\<forall>room data. roomsData initServer room = Some data \<longrightarrow> direction_rule data"
      by (simp add: initServer_def)
    from run_direction_rule[OF that(1) this] that(2) have "direction_rule data" by blast
    with that(3) show ?thesis by (simp add: direction_rule_def)
  qed
  have b: "(started d1 = started d0 \<and> promptCount d1 = promptCount d0
            \<and> currentPromptType d1 = currentPromptType d0)
       \<or> (\<exists>a. msg = StartGame a \<and> \<not> started d0 \<and> started d1 \<and> promptCount d1 = 1
              \<and> currentPromptType d1 = SellCall)
       \<or> (\<exists>a. msg = RoundUpdate a \<and> started d1 = started d0
              \<and> promptCount d1 = promptCount d0 + 1
              \<and> currentPromptType d1 = (if even (promptCount d1) then SellCall else BuyCall))"
    if "handle s0 msg = Inr s1" "room \<in> rooms s0" "roomsData s0 room = Some d0"
       "roomsData s1 room = Some d1"
    using handle_round_step[OF that(1,4)] that(2,3) by auto
  from a b show ?thesis by blast
qed

theorem round_direction_in_every_run_witness:
  "\<exists>data d1 d2. run initServer ex_game = Inr ex_round3
      \<and> roomsData ex_round3 ''room'' = Some data \<and> started data
      \<and> promptCount data = 3 \<and> currentPromptType data = BuyCall
      \<and> handle ex_round1 (RoundUpdate ''adm'') = Inr ex_round2 \<and> ''room'' \<in> rooms ex_round1
      \<and> roomsData ex_round1 ''room'' = Some d1 \<and> roomsData ex_round2 ''room'' = Some d2
      \<and> promptCount d1 = 1 \<and> promptCount d2 = 2 \<and> currentPromptType d2 = SellCall"
proof -
  from ex_game_eval obtain data where d: "roomsData ex_round3 ''room'' = Some data"
    "started data" "promptCount data = 3"
    by auto
  have h: "handle ex_round1 (RoundUpdate ''adm'') = Inr ex_round2" "''room'' \<in> rooms ex_round1"
    "map_option promptCount (roomsData ex_round1 ''room'') = Some 1"
    "map_option promptCount (roomsData ex_round2 ''room'') = Some 2"
    by (simp_all add: ex_round2_def ex_round1_def ex_lobby_eval startGame_def roundUpdate_def
      initRoomData_def processRoundBids_def broadcastPositionsAndSharpe_def
      applyRiskFreeAndRecord_def js_defs Let_def)
  then obtain d1 d2 where dd: "roomsData ex_round1 ''room'' = Some d1" "promptCount d1 = 1"
    "roomsData ex_round2 ''room'' = Some d2" "promptCount d2 = 2"
    by auto
  note t = round_direction_in_every_run [of ex_game ex_round3 "''room''" data ex_round1
      "RoundUpdate ''adm''" ex_round2 d1 d2]
  from t ex_game_eval(1) d have a: "currentPromptType data = BuyCall" by simp
  from t h(1,2) dd(1,3) have
     "(started d2 = started d1 \<and> promptCount d2 = promptCount d1
            \<and> currentPromptType d2 = currentPromptType d1)
       \<or> (\<exists>a. RoundUpdate ''adm'' = StartGame a \<and> \<not> started d1 \<and> started d2
              \<and> promptCount d2 = 1 \<and> currentPromptType d2 = SellCall)
       \<or> (\<exists>a. RoundUpdate ''adm'' = RoundUpdate a \<and> started d2 = started d1
              \<and> promptCount d2 = promptCount d1 + 1
              \<and> currentPromptType d2 = (if even (promptCount d2) then SellCall else BuyCall))"
    by blast
  with dd(2,4) have b: "currentPromptType d2 = SellCall" by auto
  show ?thesis
    apply (rule exI[of _ data])
    apply (rule exI[of _ d1])
    apply (rule exI[of _ d2])
    using a b d dd h(1,2) ex_game_eval(1) apply simp
    done
qed

text \<open>
  The claim's reading that directions alternate starting from round 1 fails: in the game
  below round 1 and round 2 have the same direction.
\<close>

theorem rounds_one_and_two_both_SellCall:
  "roundUpdate ex_round1 ''adm'' = Inr (None, ex_round2)
   \<and> map_option promptCount (roomsData ex_round1 ''room'') = Some 1
   \<and> map_option currentPromptType (roomsData ex_round1 ''room'') = Some SellCall
   \<and> map_option promptCount (roomsData ex_round2 ''room'') = Some 2
   \<and> map_option currentPromptType (roomsData ex_round2 ''room'') = Some SellCall"
  by (simp add: ex_round2_def ex_round1_def ex_lobby_eval startGame_def roundUpdate_def
      initRoomData_def processRoundBids_def broadcastPositionsAndSharpe_def
      applyRiskFreeAndRecord_def js_defs Let_def)

text \<open>
  Claim C4.  A round advance on a room with no submitted bid emits no trade results and
  leaves \<open>marketPrice\<close> as it was, and still runs the valuation step: the room keeps the same
  players' positions, and every position has its cash compounded by the risk-free step and
  one new point, the compounded cash plus calls times the market price, appended to its
  \<open>portfolioHistory\<close>.
\<close>

theorem roundUpdate_without_bids_keeps_marketPrice_and_values_positions:
  assumes "adminToRoom s adminID = Some room" and "room \<noteq> []"
      and "roomsData s room = Some data" and "bids data = []"
  shows "\<exists>s' data'. roundUpdate s adminID = Inr (None, s')
           \<and> roomsData s' room = Some data'
           \<and> marketPrice data' = marketPrice data
           \<and> map fst (positions data') = map fst (positions data)
           \<and> (\<forall>u pos. obj_get (positions data) u = Some pos \<longrightarrow>
                 (\<exists>pos'. obj_get (positions data') u = Some pos'
                    \<and> cash pos' = cash pos * (1 + 0.05 / 60)
                    \<and> calls pos' = calls pos
                    \<and> portfolioHistory pos' = portfolioHistory pos @
                         [cash pos * (1 + 0.05 / 60)
                            + real_of_int (calls pos) * marketPrice data]))"
proof -
  from roundUpdate_run[OF assms(1-3)] obtain tr data1 where
    p: "processRoundBids data = Inr (tr, data1)"
    and ru: "roundUpdate s adminID =
          Inr (tr, s\<lparr>roomsData := (roomsData s)(room \<mapsto>
                 data1\<lparr>promptCount := promptCount data + 1,
                       currentPromptType :=
                         (if (promptCount data + 1) mod 2 = 0 then SellCall else BuyCall)\<rparr>)\<rparr>)"
    by blast
  from p assms(4) have tr: "tr = None" and d1: "data1 = broadcastPositionsAndSharpe data"
    by (simp_all add: processRoundBids_empty)
  show ?thesis
    unfolding ru tr d1
    by (simp add: keys_broadcast positions_broadcast)
qed

theorem roundUpdate_without_bids_keeps_marketPrice_and_values_positions_witness:
  "\<exists>s' data' pos'. roundUpdate ex_round1 ''adm'' = Inr (None, s')
      \<and> roomsData s' ''room'' = Some data' \<and> marketPrice data' = 0
      \<and> obj_get (positions data') ''A'' = Some pos'
      \<and> cash pos' = 1201 / 12 \<and> portfolioHistory pos' = [100, 1201 / 12]"
proof -
  define d where "d = (initRoomData ''adm'')\<lparr>usernames := [(''A'', ''ann'')],
      started := True,
      positions := [(''A'', \<lparr>cash = 100, calls = 0, portfolioHistory = [100], sharpe = None\<rparr>)],
      promptCount := 1\<rparr>"
  have h: "adminToRoom ex_round1 ''adm'' = Some ''room''" "''room'' \<noteq> []"
    "roomsData ex_round1 ''room'' = Some d" "bids d = []"
    by (simp_all add: d_def ex_round1_def ex_lobby_eval startGame_def initRoomData_def Let_def)
  have q: "obj_get (positions d) ''A'' =
      Some \<lparr>cash = 100, calls = 0, portfolioHistory = [100], sharpe = None\<rparr>"
    "marketPrice d = 0"
    by (simp_all add: d_def obj_get_def initRoomData_def)
  from roundUpdate_without_bids_keeps_marketPrice_and_values_positions [OF h]
  obtain s' data' where r: "roundUpdate ex_round1 ''adm'' = Inr (None, s')"
    "roomsData s' ''room'' = Some data'" "marketPrice data' = marketPrice d"
    and all: "\<forall>u pos. obj_get (positions d) u = Some pos \<longrightarrow>
                 (\<exists>pos'. obj_get (positions data') u = Some pos'
                    \<and> cash pos' = cash pos * (1 + 0.05 / 60)
                    \<and> calls pos' = calls pos
                    \<and> portfolioHistory pos' = portfolioHistory pos @
                         [cash pos * (1 + 0.05 / 60)
                            + real_of_int (calls pos) * marketPrice d])"
    by blast
  from all q(1) obtain pos' where "obj_get (positions data') ''A'' = Some pos'"
    "cash pos' = 100 * (1 + 0.05 / 60)"
    "portfolioHistory pos' = [100] @ [100 * (1 + 0.05 / 60) + real_of_int 0 * marketPrice d]"
    by fastforce
  with r q(2) show ?thesis by auto
qed

text \<open>
  Claim C5 (as amended).  \<open>computeSharpeRatio\<close> depends on the valuation history alone.  A
  history of fewer than two points gives \<open>0\<close>.  Otherwise, when no valuation that serves as a
  denominator of a step return is zero, the result is the specification's formula
  \<open>spec_sharpe\<close>: the mean of the step returns minus the risk-free step rate, over the
  standard deviation with divisor \<open>max (count - 1) 1\<close>, and \<open>0\<close> when that deviation is below
  the threshold; the rate is the one by which \<open>applyRiskFreeAndRecord\<close> compounds cash.  When
  a denominator is zero the division leaves the numbers and the result is \<open>NaN\<close>.
\<close>

theorem computeSharpeRatio_follows_formula:
  "(length v < 2 \<longrightarrow> computeSharpeRatio v = Finite 0)
   \<and> ((\<forall>i < length v - 1. v ! i \<noteq> 0) \<longrightarrow> computeSharpeRatio v = Finite (spec_sharpe v))
   \<and> (2 \<le> length v \<and> (\<exists>i < length v - 1. v ! i = 0) \<longrightarrow> computeSharpeRatio v = NaN)
   \<and> (\<forall>u pos. obj_get (positions data) u = Some pos \<longrightarrow>
         map_option cash (obj_get (positions (applyRiskFreeAndRecord data)) u)
           = Some (cash pos * (1 + riskFreeStepRate)))"
proof -
  have a: "length v < 2 \<longrightarrow> computeSharpeRatio v = Finite 0"
    by (simp add: computeSharpeRatio_short)
  have b: "(\<forall>i < length v - 1. v ! i \<noteq> 0) \<longrightarrow> computeSharpeRatio v = Finite (spec_sharpe v)"
    using computeSharpeRatio_spec by blast
  have c: "2 \<le> length v \<and> (\<exists>i < length v - 1. v ! i = 0) \<longrightarrow> computeSharpeRatio v = NaN"
    using computeSharpeRatio_NaN by blast
  have d: "\<forall>u pos. obj_get (positions data) u = Some pos \<longrightarrow>
         map_option cash (obj_get (positions (applyRiskFreeAndRecord data)) u)
           = Some (cash pos * (1 + riskFreeStepRate))"
    by (simp add: positions_applyRiskFree riskFreeStepRate_def)
  from a b c d show ?thesis by blast
qed

theorem computeSharpeRatio_follows_formula_witness:
  "computeSharpeRatio [100] = Finite 0
   \<and> computeSharpeRatio [100, 100, 110, 132] = Finite (119 / 120)
   \<and> computeSharpeRatio [100, 100] = Finite 0
   \<and> computeSharpeRatio [0, 5] = NaN
   \<and> map_option cash (obj_get (positions (applyRiskFreeAndRecord ex_data)) ''A'')
        = Some (1201 / 12)"
proof -
  let ?v = "[100, 100, 110, 132] :: real list"
  have nz: "\<forall>i < length ?v - 1. ?v ! i \<noteq> 0"
    by (simp add: less_Suc_eq numeral_3_eq_3)
  have rs: "spec_returns ?v = [0, 1 / 10, 1 / 5]"
    by (simp add: spec_returns_def upt_rec_numeral)
  have mean: "spec_mean [0, 1 / 10, 1 / 5] = 1 / 10"
    by (simp add: spec_mean_def)
  have sd: "spec_stdev [0, 1 / 10, 1 / 5] = 1 / 10"
    by (simp add: spec_stdev_def mean power2_eq_square sqrt_hundredth)
  have sh: "spec_sharpe ?v = 119 / 120"
    by (simp add: spec_sharpe_def rs mean sd STDEV_THRESHOLD_def riskFreeStepRate_def)
  let ?w = "[100, 100] :: real list"
  have nz2: "\<forall>i < length ?w - 1. ?w ! i \<noteq> 0" by simp
  have rs2: "spec_returns ?w = [0]"
    by (simp add: spec_returns_def upt_rec_numeral)
  have sh2: "spec_sharpe ?w = 0"
    by (simp add: spec_sharpe_def rs2 spec_stdev_def spec_mean_def STDEV_THRESHOLD_def)
  have z: "2 \<le> length [0, 5 :: real] \<and> (\<exists>i < length [0, 5 :: real] - 1. [0, 5 :: real] ! i = 0)"
    by simp
  have q: "obj_get (positions ex_data) ''A'' =
      Some \<lparr>cash = 100, calls = 0, portfolioHistory = [100], sharpe = None\<rparr>"
    by (simp add: ex_data_def obj_get_def)
  have l: "map_option cash (obj_get (positions (applyRiskFreeAndRecord ex_data)) ''A'')
        = Some (1201 / 12)"
  proof -
    from computeSharpeRatio_follows_formula [of "[100]" ex_data] q
    have "map_option cash (obj_get (positions (applyRiskFreeAndRecord ex_data)) ''A'')
        = Some (cash \<lparr>cash = 100, calls = 0, portfolioHistory = [100], sharpe = None\<rparr>
                  * (1 + riskFreeStepRate))"
      by blast
    then show ?thesis by (simp add: riskFreeStepRate_def)
  qed
  have s1: "computeSharpeRatio [100] = Finite 0"
    using computeSharpeRatio_follows_formula [of "[100]" ex_data] by simp
  have s2: "computeSharpeRatio ?v = Finite (119 / 120)"
    using computeSharpeRatio_follows_formula [of ?v ex_data] nz sh by simp
  have s3: "computeSharpeRatio ?w = Finite 0"
    using computeSharpeRatio_follows_formula [of ?w ex_data] nz2 sh2 by simp
  have s4: "computeSharpeRatio [0, 5] = NaN"
    using computeSharpeRatio_follows_formula [of "[0, 5]" ex_data] z by blast
  from l s1 s2 s3 s4 show ?thesis by simp
qed

text \<open>
  The claim's formula for every history of two or more points fails where a valuation is
  zero: the game below reaches the history \<open>[100, 100, 0, 0]\<close>, whose last step return
  divides by zero, and the player's Sharpe ratio is no number.
\<close>

theorem zero_valuation_gives_no_number:
  "run initServer ex_zero_game = Inr ex_zero
   \<and> map_option portfolioHistory (positionOf ex_zero ''room'' ''A'') = Some [100, 100, 0, 0]
   \<and> map_option sharpe (positionOf ex_zero ''room'' ''A'') = Some (Some NaN)
   \<and> computeSharpeRatio [100, 100, 0, 0] = NaN
   \<and> computeSharpeRatio [100, 100, 0, 0] \<noteq> Finite (spec_sharpe [100, 100, 0, 0])"
  by (simp add: ex_zero_def ex_zero_game_def initServer_def positionOf_def obj_get_def
      room_start_def join_room_def startGame_def roundUpdate_def submitBid_def
      initRoomData_def processRoundBids_def sortBids_def js_sort_def js_index_def medianIndex_def
      executeBids_def executeBid_def broadcastPositionsAndSharpe_def applyRiskFreeAndRecord_def
      js_defs Let_def sharpe_zero_history)

text \<open>
  Claim C6.  \<open>finalizeGame\<close> with final underlying price \<open>P\<close> settles every position of the
  room at the intrinsic value \<open>max 0 (P - 100)\<close> (the strike is the constant 100):
  \<open>finalCash = cash + calls * intrinsicValue\<close>; this value is appended to the position's
  \<open>portfolioHistory\<close>, and the reported Sharpe ratio is computed from the history that ends
  with it.  With \<open>P = 120\<close>, two calls and cash 50 the final cash is 90.
\<close>

theorem finalizeGame_settles_at_intrinsic_value:
  assumes "adminToRoom s adminID = Some room" and "room \<noteq> []"
      and "roomsData s room = Some data"
      and "distinct (map fst (positions data))"
      and "obj_get (positions data) u = Some pos"
  shows "\<exists>results s' data' res pos'.
           finalizeGame s adminID finalPx = (Some results, s')
         \<and> roomsData s' room = Some data' \<and> gameOver data'
         \<and> obj_get results u = Some res
         \<and> obj_get (positions data') u = Some pos'
         \<and> res_callIntrinsicValue res = max 0 (finalPx - 100)
         \<and> res_finalCash res = cash pos + real_of_int (calls pos) * max 0 (finalPx - 100)
         \<and> portfolioHistory pos' = portfolioHistory pos @ [res_finalCash res]
         \<and> res_portfolioHistory res = portfolioHistory pos'
         \<and> res_sharpe res = computeSharpeRatio (portfolioHistory pos @ [res_finalCash res])
         \<and> cash pos' = cash pos \<and> calls pos' = calls pos"
proof -
  let ?d1 = "data\<lparr>gameOver := True\<rparr>"
  let ?g = "\<lambda>entry. snd (finalizePosition ?d1 finalPx entry)"
  have mem: "(u, pos) \<in> set (positions data)"
    using assms(5) by (rule obj_get_SomeD)
  have res: "obj_get (fold (\<lambda>entry res. obj_set (fst entry) (?g entry) res) (positions data) []) u
               = Some (?g (u, pos))"
    using fold_obj_set_mem[OF assms(4) mem, of ?g "[]"] by simp
  have pos': "obj_get (map (\<lambda>entry. (fst entry, fst (finalizePosition ?d1 finalPx entry)))
                          (positions data)) u
               = Some (fst (finalizePosition ?d1 finalPx (u, pos)))"
    by (simp add: obj_get_map_entries assms(5))
  show ?thesis
    unfolding finalizeGame_run[OF assms(1-3)]
    using res pos' by (simp add: finalizePosition_def Let_def)
qed

theorem finalizeGame_settles_at_intrinsic_value_witness:
  "\<exists>results s' res. finalizeGame ex_holding ''adm'' 120 = (Some results, s')
      \<and> obj_get results ''A'' = Some res
      \<and> res_callIntrinsicValue res = 20 \<and> res_finalCash res = 90
      \<and> res_portfolioHistory res = [100, 80, 90]
      \<and> res_sharpe res = computeSharpeRatio [100, 80, 90]"
proof -
  let ?pos = "\<lparr>cash = 50, calls = 2, portfolioHistory = [100, 80], sharpe = None\<rparr>"
  let ?d = "ex_data\<lparr>positions := [(''A'', ?pos)], bids := []\<rparr>"
  have h: "adminToRoom ex_holding ''adm'' = Some ''room''" "''room'' \<noteq> []"
    "roomsData ex_holding ''room'' = Some ?d"
    "distinct (map fst (positions ?d))"
    "obj_get (positions ?d) ''A'' = Some ?pos"
    by (simp_all add: ex_holding_def ex_server_def obj_get_def)
  show ?thesis
    using finalizeGame_settles_at_intrinsic_value [OF h, of 120] by auto
qed

text \<open>
  Claim C7.  After \<open>finalizeGame\<close> the room has \<open>gameOver\<close> set and \<open>submitBid\<close> leaves the
  state as it is (\<open>finalizeGame_sets_gameOver\<close>, \<open>submitBid_after_gameOver\<close>), but
  \<open>roundUpdate\<close> has no such test.  In the game below player A bids 10 in round 1, the admin
  finalizes at 120 and then sends \<open>roundUpdate\<close>: the bid left in the room is matched, A's
  cash, calls and history change and the market price moves from 0 to 10.
\<close>

theorem roundUpdate_after_finalizeGame_still_trades:
  "map_option gameOver (roomsData ex_over ''room'') = Some True
   \<and> map_option marketPrice (roomsData ex_over ''room'') = Some 0
   \<and> map_option cash (positionOf ex_over ''room'' ''A'') = Some 100
   \<and> map_option calls (positionOf ex_over ''room'' ''A'') = Some 0
   \<and> map_option portfolioHistory (positionOf ex_over ''room'' ''A'') = Some [100, 100]
   \<and> roundUpdate ex_over ''adm'' = Inr (Some [(''A'', Executed 10)], ex_after_over)
   \<and> map_option marketPrice (roomsData ex_after_over ''room'') = Some 10
   \<and> map_option cash (positionOf ex_after_over ''room'' ''A'') = Some (3603 / 40)
   \<and> map_option calls (positionOf ex_after_over ''room'' ''A'') = Some 1
   \<and> map_option portfolioHistory (positionOf ex_after_over ''room'' ''A'')
        = Some [100, 100, 4003 / 40]
   \<and> map_option promptCount (roomsData ex_after_over ''room'') = Some 2"
  by (simp add: ex_after_over_def ex_over_eval positionOf_def obj_get_def roundUpdate_def
      processRoundBids_def sortBids_def js_sort_def js_index_def medianIndex_def
      executeBids_def executeBid_def broadcastPositionsAndSharpe_def
      applyRiskFreeAndRecord_def js_defs Let_def)

text \<open>
  Claim C8 (as amended).  \<open>join-room\<close> tests in this order: it replies \<open>noSuchRoom\<close> when the
  room is not registered; otherwise, for a non-empty username, \<open>gameAlreadyStarted\<close> when
  the room is both started and over (a room that is over but was never started still takes
  joins); otherwise \<open>usernameTaken\<close> when the username is in that room's roster (only that
  room's roster is read, so the same name joins two rooms); otherwise it approves.  On
  approval, for a player id other than \<open>__proto__\<close>, it records the username under the
  player id and maps the player to the room; for a player id that is no property name of
  \<open>Object.prototype\<close> and has no position it seeds one with cash 100 and no calls; an
  existing position is kept as it is, and no other player's entry changes.
\<close>

theorem join_room_checks_in_order:
  "(room \<notin> rooms s \<longrightarrow> join_room s room username userID = (Some NoSuchRoom, s))
   \<and> (username \<noteq> [] \<and> room \<in> rooms s \<and> roomsData s room = Some data \<longrightarrow>
        (started data \<and> gameOver data \<longrightarrow>
           join_room s room username userID = (Some GameAlreadyStarted, s))
      \<and> (\<not> (started data \<and> gameOver data) \<and> username \<in> snd ` set (usernames data) \<longrightarrow>
           join_room s room username userID = (Some UsernameTaken, s))
      \<and> (\<not> (started data \<and> gameOver data) \<and> username \<notin> snd ` set (usernames data) \<longrightarrow>
           (\<exists>s' data'. join_room s room username userID = (Some JoinApproved, s')
              \<and> rooms s' = rooms s
              \<and> roomsData s' = (roomsData s)(room \<mapsto> data')
              \<and> (userID \<noteq> ''__proto__'' \<longrightarrow>
                    playerToRoom s' = (playerToRoom s)(userID \<mapsto> room)
                  \<and> obj_get (usernames data') userID = Some username)
              \<and> (\<forall>u. u \<noteq> userID \<longrightarrow> obj_get (usernames data') u = obj_get (usernames data) u)
              \<and> (userID \<notin> set object_prototype_keys \<and> obj_get (positions data) userID = None \<longrightarrow>
                    obj_get (positions data') userID =
                      Some \<lparr>cash = 100, calls = 0, portfolioHistory = [], sharpe = None\<rparr>)
              \<and> (obj_get (positions data) userID \<noteq> None \<longrightarrow>
                    positions data' = positions data)
              \<and> (\<forall>u. u \<noteq> userID \<longrightarrow>
                    obj_get (positions data') u = obj_get (positions data) u))))"
proof -
  have a: "room \<notin> rooms s \<longrightarrow> join_room s room username userID = (Some NoSuchRoom, s)"
    by (simp add: join_room_def)
  have b: "username \<noteq> [] \<and> room \<in> rooms s \<and> roomsData s room = Some data
        \<and> started data \<and> gameOver data \<longrightarrow>
           join_room s room username userID = (Some GameAlreadyStarted, s)"
    by (simp add: join_room_def)
  have c: "username \<noteq> [] \<and> room \<in> rooms s \<and> roomsData s room = Some data
        \<and> \<not> (started data \<and> gameOver data) \<and> username \<in> snd ` set (usernames data) \<longrightarrow>
           join_room s room username userID = (Some UsernameTaken, s)"
    by (auto simp: join_room_def)
  have d: "username \<noteq> [] \<and> room \<in> rooms s \<and> roomsData s room = Some data
        \<and> \<not> (started data \<and> gameOver data) \<and> username \<notin> snd ` set (usernames data) \<longrightarrow>
           (\<exists>s' data'. join_room s room username userID = (Some JoinApproved, s')
              \<and> rooms s' = rooms s
              \<and> roomsData s' = (roomsData s)(room \<mapsto> data')
              \<and> (userID \<noteq> ''__proto__'' \<longrightarrow>
                    playerToRoom s' = (playerToRoom s)(userID \<mapsto> room)
                  \<and> obj_get (usernames data') userID = Some username)
              \<and> (\<forall>u. u \<noteq> userID \<longrightarrow> obj_get (usernames data') u = obj_get (usernames data) u)
              \<and> (userID \<notin> set object_prototype_keys \<and> obj_get (positions data) userID = None \<longrightarrow>
                    obj_get (positions data') userID =
                      Some \<lparr>cash = 100, calls = 0, portfolioHistory = [], sharpe = None\<rparr>)
              \<and> (obj_get (positions data) userID \<noteq> None \<longrightarrow>
                    positions data' = positions data)
              \<and> (\<forall>u. u \<noteq> userID \<longrightarrow>
                    obj_get (positions data') u = obj_get (positions data) u))"
  proof (intro impI, elim conjE)
    assume h: "username \<noteq> []" "room \<in> rooms s" "roomsData s room = Some data"
      "\<not> (started data \<and> gameOver data)" "username \<notin> snd ` set (usernames data)"
    show "\<exists>s' data'. join_room s room username userID = (Some JoinApproved, s')
              \<and> rooms s' = rooms s
              \<and> roomsData s' = (roomsData s)(room \<mapsto> data')
              \<and> (userID \<noteq> ''__proto__'' \<longrightarrow>
                    playerToRoom s' = (playerToRoom s)(userID \<mapsto> room)
                  \<and> obj_get (usernames data') userID = Some username)
              \<and> (\<forall>u. u \<noteq> userID \<longrightarrow> obj_get (usernames data') u = obj_get (usernames data) u)
              \<and> (userID \<notin> set object_prototype_keys \<and> obj_get (positions data) userID = None \<longrightarrow>
                    obj_get (positions data') userID =
                      Some \<lparr>cash = 100, calls = 0, portfolioHistory = [], sharpe = None\<rparr>)
              \<and> (obj_get (positions data) userID \<noteq> None \<longrightarrow>
                    positions data' = positions data)
              \<and> (\<forall>u. u \<noteq> userID \<longrightarrow>
                    obj_get (positions data') u = obj_get (positions data) u)"
      unfolding join_room_success[OF h]
      by (cases "obj_get (positions data) userID")
         (auto simp: obj_get_obj_set obj_read_cases obj_assign_def map_assign_def proto_in_keys)
  qed
  from a b c d show ?thesis by blast
qed

theorem join_room_checks_in_order_witness:
  "fst (join_room ex_two_rooms ''nowhere'' ''ann'' ''A'') = Some NoSuchRoom
   \<and> fst (join_room ex_two_rooms ''room'' ''ann'' ''A'') = Some JoinApproved
   \<and> positionOf (snd (join_room ex_two_rooms ''room'' ''ann'' ''A'')) ''room'' ''A''
        = Some \<lparr>cash = 100, calls = 0, portfolioHistory = [], sharpe = None\<rparr>
   \<and> playerToRoom (snd (join_room ex_two_rooms ''room'' ''ann'' ''A'')) ''A'' = Some ''room''
   \<and> fst (join_room (snd (join_room ex_two_rooms ''room'' ''ann'' ''A'')) ''other'' ''ann'' ''A2'')
        = Some JoinApproved
   \<and> fst (join_room (snd (join_room ex_two_rooms ''room'' ''ann'' ''A'')) ''room'' ''ann'' ''B'')
        = Some UsernameTaken
   \<and> fst (join_room ex_over ''room'' ''bea'' ''B'') = Some GameAlreadyStarted
   \<and> fst (join_room ex_holding ''room'' ''zed'' ''A'') = Some JoinApproved
   \<and> positionOf (snd (join_room ex_holding ''room'' ''zed'' ''A'')) ''room'' ''A''
        = positionOf ex_holding ''room'' ''A''"
proof -
  note order = join_room_checks_in_order
  have missing: "join_room s room username userID = (Some NoSuchRoom, s)"
    if "room \<notin> rooms s" for s room username userID
    using order[of room s username userID] that by simp
  have over: "join_room s room username userID = (Some GameAlreadyStarted, s)"
    if "username \<noteq> []" "room \<in> rooms s" "roomsData s room = Some data"
       "started data" "gameOver data" for s room username userID data
    using order[of room s username userID data] that by simp
  have taken: "join_room s room username userID = (Some UsernameTaken, s)"
    if "username \<noteq> []" "room \<in> rooms s" "roomsData s room = Some data"
       "\<not> (started data \<and> gameOver data)" "username \<in> snd ` set (usernames data)"
    for s room username userID data
    using order[of room s username userID data] that by simp
  have approved: "\<exists>s' data'. join_room s room username userID = (Some JoinApproved, s')
              \<and> playerToRoom s' = (playerToRoom s)(userID \<mapsto> room)
              \<and> roomsData s' = (roomsData s)(room \<mapsto> data')
              \<and> (obj_get (positions data) userID = None \<longrightarrow>
                    obj_get (positions data') userID =
                      Some \<lparr>cash = 100, calls = 0, portfolioHistory = [], sharpe = None\<rparr>)
              \<and> (obj_get (positions data) userID \<noteq> None \<longrightarrow>
                    positions data' = positions data)"
    if "username \<noteq> []" "room \<in> rooms s" "roomsData s room = Some data"
       "\<not> (started data \<and> gameOver data)" "username \<notin> snd ` set (usernames data)"
       "userID \<notin> set object_prototype_keys"
    for s room username userID data
  proof -
    from that(6) proto_in_keys have np: "userID \<noteq> ''__proto__''" by auto
    from order[of room s username userID data] that(1-5)
    have "\<exists>s' data'. join_room s room username userID = (Some JoinApproved, s')
              \<and> rooms s' = rooms s
              \<and> roomsData s' = (roomsData s)(room \<mapsto> data')
              \<and> (userID \<noteq> ''__proto__'' \<longrightarrow>
                    playerToRoom s' = (playerToRoom s)(userID \<mapsto> room)
                  \<and> obj_get (usernames data') userID = Some username)
              \<and> (\<forall>u. u \<noteq> userID \<longrightarrow> obj_get (usernames data') u = obj_get (usernames data) u)
              \<and> (userID \<notin> set object_prototype_keys \<and> obj_get (positions data) userID = None \<longrightarrow>
                    obj_get (positions data') userID =
                      Some \<lparr>cash = 100, calls = 0, portfolioHistory = [], sharpe = None\<rparr>)
              \<and> (obj_get (positions data) userID \<noteq> None \<longrightarrow>
                    positions data' = positions data)
              \<and> (\<forall>u. u \<noteq> userID \<longrightarrow>
                    obj_get (positions data') u = obj_get (positions data) u)"
      by (simp only: simp_thms not_False_eq_True)
    then obtain s' data' where j: "join_room s room username userID = (Some JoinApproved, s')"
      "roomsData s' = (roomsData s)(room \<mapsto> data')"
      "userID \<noteq> ''__proto__'' \<longrightarrow>
                    playerToRoom s' = (playerToRoom s)(userID \<mapsto> room)
                  \<and> obj_get (usernames data') userID = Some username"
      "userID \<notin> set object_prototype_keys \<and> obj_get (positions data) userID = None \<longrightarrow>
                    obj_get (positions data') userID =
                      Some \<lparr>cash = 100, calls = 0, portfolioHistory = [], sharpe = None\<rparr>"
      "obj_get (positions data) userID \<noteq> None \<longrightarrow> positions data' = positions data"
      by (elim exE conjE)
    from j(3) np have m: "playerToRoom s' = (playerToRoom s)(userID \<mapsto> room)" by simp
    from j(4) that(6) have sd: "obj_get (positions data) userID = None \<longrightarrow>
                    obj_get (positions data') userID =
                      Some \<lparr>cash = 100, calls = 0, portfolioHistory = [], sharpe = None\<rparr>"
      by simp
    from j(1) m j(2) sd j(5) show ?thesis by (intro exI[of _ s'] exI[of _ data'] conjI)
  qed
  have c1: "fst (join_room ex_two_rooms ''nowhere'' ''ann'' ''A'') = Some NoSuchRoom"
    by (subst missing) (simp_all add: ex_two_rooms_eval)
  have h2: "''ann'' \<noteq> []" "''room'' \<in> rooms ex_two_rooms"
    "roomsData ex_two_rooms ''room'' = Some (initRoomData ''adm'')"
    "\<not> (started (initRoomData ''adm'') \<and> gameOver (initRoomData ''adm''))"
    "''ann'' \<notin> snd ` set (usernames (initRoomData ''adm''))"
    "obj_get (positions (initRoomData ''adm'')) ''A'' = None"
    by (simp_all add: ex_two_rooms_eval initRoomData_def obj_get_def)
  have ordA: "''A'' \<notin> set object_prototype_keys" "''A2'' \<notin> set object_prototype_keys"
    by (simp_all add: object_prototype_keys_def)
  from approved[OF h2(1-5) ordA(1)] h2(6)
  obtain s1 d1 where j1: "join_room ex_two_rooms ''room'' ''ann'' ''A'' = (Some JoinApproved, s1)"
    "playerToRoom s1 = (playerToRoom ex_two_rooms)(''A'' \<mapsto> ''room'')"
    "roomsData s1 = (roomsData ex_two_rooms)(''room'' \<mapsto> d1)"
    "obj_get (positions d1) ''A'' =
       Some \<lparr>cash = 100, calls = 0, portfolioHistory = [], sharpe = None\<rparr>"
    by blast
  have s1_eq: "snd (join_room ex_two_rooms ''room'' ''ann'' ''A'') =
      ex_two_rooms\<lparr>playerToRoom := (playerToRoom ex_two_rooms)(''A'' \<mapsto> ''room''),
        roomsData := (roomsData ex_two_rooms)(''room'' \<mapsto>
          (initRoomData ''adm'')\<lparr>usernames := [(''A'', ''ann'')],
            positions := [(''A'', \<lparr>cash = 100, calls = 0, portfolioHistory = [],
                                   sharpe = None\<rparr>)]\<rparr>)\<rparr>"
    by (simp add: join_room_success[OF h2(1-5)] h2(6) obj_read_cases obj_assign_def
          map_assign_def object_prototype_keys_def)
       (simp add: initRoomData_def)
  have c2: "fst (join_room ex_two_rooms ''room'' ''ann'' ''A'') = Some JoinApproved"
    and c3: "positionOf (snd (join_room ex_two_rooms ''room'' ''ann'' ''A'')) ''room'' ''A''
        = Some \<lparr>cash = 100, calls = 0, portfolioHistory = [], sharpe = None\<rparr>"
    and c3': "playerToRoom (snd (join_room ex_two_rooms ''room'' ''ann'' ''A'')) ''A''
        = Some ''room''"
    using j1 by (simp_all add: positionOf_def)
  have c4: "fst (join_room (snd (join_room ex_two_rooms ''room'' ''ann'' ''A''))
                  ''other'' ''ann'' ''A2'') = Some JoinApproved"
  proof -
    have "\<exists>s' data'. join_room (snd (join_room ex_two_rooms ''room'' ''ann'' ''A''))
                  ''other'' ''ann'' ''A2'' = (Some JoinApproved, s')
              \<and> playerToRoom s' = (playerToRoom (snd (join_room ex_two_rooms ''room'' ''ann'' ''A'')))(''A2'' \<mapsto> ''other'')
              \<and> roomsData s' = (roomsData (snd (join_room ex_two_rooms ''room'' ''ann'' ''A'')))(''other'' \<mapsto> data')
              \<and> (obj_get (positions (initRoomData ''adm2'')) ''A2'' = None \<longrightarrow>
                    obj_get (positions data') ''A2'' =
                      Some \<lparr>cash = 100, calls = 0, portfolioHistory = [], sharpe = None\<rparr>)
              \<and> (obj_get (positions (initRoomData ''adm2'')) ''A2'' \<noteq> None \<longrightarrow>
                    positions data' = positions (initRoomData ''adm2''))"
      unfolding s1_eq
      by (rule approved) (simp_all add: ex_two_rooms_eval initRoomData_def ordA)
    then show ?thesis by auto
  qed
  have c5: "fst (join_room (snd (join_room ex_two_rooms ''room'' ''ann'' ''A''))
                  ''room'' ''ann'' ''B'') = Some UsernameTaken"
    unfolding s1_eq
    by (subst taken[where data = "(initRoomData ''adm'')\<lparr>usernames := [(''A'', ''ann'')],
            positions := [(''A'', \<lparr>cash = 100, calls = 0, portfolioHistory = [],
                                   sharpe = None\<rparr>)]\<rparr>"])
       (simp_all add: ex_two_rooms_eval initRoomData_def)
  have c6: "fst (join_room ex_over ''room'' ''bea'' ''B'') = Some GameAlreadyStarted"
    by (subst over[where data = "\<lparr> admin = ''adm'', usernames = [(''A'', ''ann'')],
          started = True, gameOver = True,
          positions = [(''A'', \<lparr>cash = 100, calls = 0, portfolioHistory = [100, 100],
                                 sharpe = None\<rparr>)],
          bids = [(''A'', 10)], promptCount = 1, strikePrice = 100,
          currentPromptType = SellCall, marketPrice = 0 \<rparr>"])
       (simp_all add: ex_over_eval)
  let ?d = "ex_data\<lparr>positions := [(''A'', \<lparr>cash = 50, calls = 2, portfolioHistory = [100, 80],
                                      sharpe = None\<rparr>)], bids := []\<rparr>"
  have h: "''zed'' \<noteq> []" "''room'' \<in> rooms ex_holding" "roomsData ex_holding ''room'' = Some ?d"
    "\<not> (started ?d \<and> gameOver ?d)" "''zed'' \<notin> snd ` set (usernames ?d)"
    "obj_get (positions ?d) ''A'' \<noteq> None"
    by (simp_all add: ex_holding_def ex_server_def ex_data_def obj_get_def)
  from approved[OF h(1-5) ordA(1)] h(6)
  obtain s' data' where j: "join_room ex_holding ''room'' ''zed'' ''A'' = (Some JoinApproved, s')"
    "roomsData s' = (roomsData ex_holding)(''room'' \<mapsto> data')"
    "positions data' = positions ?d"
    by blast
  have c7: "fst (join_room ex_holding ''room'' ''zed'' ''A'') = Some JoinApproved"
    "positionOf (snd (join_room ex_holding ''room'' ''zed'' ''A'')) ''room'' ''A''
        = positionOf ex_holding ''room'' ''A''"
    using j h(3) by (simp_all add: positionOf_def)
  from c1 c2 c3 c3' c4 c5 c6 c7 show ?thesis by simp
qed

text \<open>
  The claim fails in three places.  The test for the finished game comes before the test
  of the roster, so a username of the roster gets \<open>gameAlreadyStarted\<close> in a room that is
  started and over.  A room that was finalized before it started is over and still approves
  a join.  And a player id that names a property of \<open>Object.prototype\<close> is approved without
  the effects the claim lists: \<open>__proto__\<close> leaves the whole state as it was, and
  \<open>constructor\<close> gets no position.
\<close>

theorem join_room_replies_against_claim:
  "''room'' \<in> rooms ex_over
   \<and> map_option usernames (roomsData ex_over ''room'') = Some [(''A'', ''ann'')]
   \<and> join_room ex_over ''room'' ''ann'' ''B'' = (Some GameAlreadyStarted, ex_over)
   \<and> map_option gameOver (roomsData ex_lobby_over ''room'') = Some True
   \<and> map_option started (roomsData ex_lobby_over ''room'') = Some False
   \<and> fst (join_room ex_lobby_over ''room'' ''bea'' ''B'') = Some JoinApproved
   \<and> join_room ex_lobby ''room'' ''bea'' ''__proto__'' = (Some JoinApproved, ex_lobby)
   \<and> fst (join_room ex_lobby ''room'' ''cat'' ''constructor'') = Some JoinApproved
   \<and> positionOf (snd (join_room ex_lobby ''room'' ''cat'' ''constructor'')) ''room'' ''constructor''
        = None"
  by (simp add: ex_over_eval ex_lobby_over_def ex_lobby_eval join_room_def finalizeGame_def
      finalizePosition_def initRoomData_def positionOf_def obj_get_def js_defs Let_def)

text \<open>
  Claim C9.  The valuation step \<open>applyRiskFreeAndRecord\<close> multiplies the cash of every
  position by \<open>1 + rfStep\<close> (\<open>rfStep = 0.05 / 60\<close>) and appends the compounded cash plus
  calls times the market price to its \<open>portfolioHistory\<close>.  Every round advance runs it on
  every registered position: after \<open>roundUpdate\<close> each position that existed before holds
  the cash of \<open>tradedPositions\<close>, the position as the round's trades left it, multiplied by
  \<open>1 + rfStep\<close>, the calls of that position, and the old history with exactly one new
  valuation point.  The traded position of a player who submitted no bid is the position
  itself; that of a bidder is the position settled at the bidder's own price when the bid
  is within the round's market price, and the position itself otherwise.  Across all
  messages (room start, start of game, round advance, join, bid, finalize, disconnect and
  heartbeat timeout) the history of a position in a registered room is only appended to:
  unless the room's data is deleted, the player still has a position whose history has
  the old history as a prefix.
\<close>

theorem valuation_every_round_and_history_append_only:
  "(\<forall>u pos. obj_get (positions data) u = Some pos \<longrightarrow>
      obj_get (positions (applyRiskFreeAndRecord data)) u =
        Some (pos\<lparr>cash := cash pos * (1 + 0.05 / 60),
                  portfolioHistory := portfolioHistory pos @
                    [cash pos * (1 + 0.05 / 60) + real_of_int (calls pos) * marketPrice data]\<rparr>))
   \<and> (adminToRoom s adminID = Some room \<and> room \<noteq> [] \<and> roomsData s room = Some data \<longrightarrow>
       (\<exists>tr s' data'. roundUpdate s adminID = Inr (tr, s') \<and> roomsData s' room = Some data'
          \<and> (\<forall>u pos. obj_get (positions data) u = Some pos \<longrightarrow>
                (\<exists>traded pos'. obj_get (tradedPositions data) u = Some traded
                   \<and> obj_get (positions data') u = Some pos'
                   \<and> portfolioHistory traded = portfolioHistory pos
                   \<and> (u \<notin> fst ` set (bids data) \<longrightarrow> traded = pos)
                   \<and> (\<forall>p. distinct (map fst (bids data)) \<and> (u, p) \<in> set (bids data) \<longrightarrow>
                         traded =
                           (if (if currentPromptType data = SellCall then marketPrice data' \<le> p
                                else p \<le> marketPrice data')
                            then (if currentPromptType data = SellCall
                                  then pos\<lparr>cash := cash pos - p, calls := calls pos + 1\<rparr>
                                  else pos\<lparr>cash := cash pos + p, calls := calls pos - 1\<rparr>)
                            else pos))
                   \<and> cash pos' = cash traded * (1 + 0.05 / 60)
                   \<and> calls pos' = calls traded
                   \<and> portfolioHistory pos' = portfolioHistory pos @
                        [cash pos' + real_of_int (calls pos') * marketPrice data']))))
   \<and> (handle s msg = Inr s2 \<and> room2 \<in> rooms s \<and> positionOf s room2 u2 = Some pos2 \<longrightarrow>
         roomsData s2 room2 = None
       \<or> (\<exists>pos'. positionOf s2 room2 u2 = Some pos'
              \<and> prefix (portfolioHistory pos2) (portfolioHistory pos')))"
proof -
  have a: "\<forall>u pos. obj_get (positions data) u = Some pos \<longrightarrow>
      obj_get (positions (applyRiskFreeAndRecord data)) u =
        Some (pos\<lparr>cash := cash pos * (1 + 0.05 / 60),
                  portfolioHistory := portfolioHistory pos @
                    [cash pos * (1 + 0.05 / 60) + real_of_int (calls pos) * marketPrice data]\<rparr>)"
    by (simp add: positions_applyRiskFree)
  have b: "\<exists>tr s' data'. roundUpdate s adminID = Inr (tr, s') \<and> roomsData s' room = Some data'
          \<and> (\<forall>u pos. obj_get (positions data) u = Some pos \<longrightarrow>
                (\<exists>traded pos'. obj_get (tradedPositions data) u = Some traded
                   \<and> obj_get (positions data') u = Some pos'
                   \<and> portfolioHistory traded = portfolioHistory pos
                   \<and> (u \<notin> fst ` set (bids data) \<longrightarrow> traded = pos)
                   \<and> (\<forall>p. distinct (map fst (bids data)) \<and> (u, p) \<in> set (bids data) \<longrightarrow>
                         traded =
                           (if (if currentPromptType data = SellCall then marketPrice data' \<le> p
                                else p \<le> marketPrice data')
                            then (if currentPromptType data = SellCall
                                  then pos\<lparr>cash := cash pos - p, calls := calls pos + 1\<rparr>
                                  else pos\<lparr>cash := cash pos + p, calls := calls pos - 1\<rparr>)
                            else pos))
                   \<and> cash pos' = cash traded * (1 + 0.05 / 60)
                   \<and> calls pos' = calls traded
                   \<and> portfolioHistory pos' = portfolioHistory pos @
                        [cash pos' + real_of_int (calls pos') * marketPrice data']))"
    if h: "adminToRoom s adminID = Some room" "room \<noteq> []" "roomsData s room = Some data"
  proof -
    from roundUpdate_run[OF h] obtain tr data1 where
      p: "processRoundBids data = Inr (tr, data1)"
      and ru: "roundUpdate s adminID =
          Inr (tr, s\<lparr>roomsData := (roomsData s)(room \<mapsto>
                 data1\<lparr>promptCount := promptCount data + 1,
                       currentPromptType :=
                         (if (promptCount data + 1) mod 2 = 0 then SellCall else BuyCall)\<rparr>)\<rparr>)"
      by blast
    let ?d' = "data1\<lparr>promptCount := promptCount data + 1,
                       currentPromptType :=
                         (if (promptCount data + 1) mod 2 = 0 then SellCall else BuyCall)\<rparr>"
    have f: "positions ?d' = positions data1" "marketPrice ?d' = marketPrice data1"
      by simp_all
    have r2: "roomsData (s\<lparr>roomsData := (roomsData s)(room \<mapsto> ?d')\<rparr>) room = Some ?d'"
      by simp
    have v: "\<forall>u pos. obj_get (positions data) u = Some pos \<longrightarrow>
                (\<exists>traded pos'. obj_get (tradedPositions data) u = Some traded
                   \<and> obj_get (positions ?d') u = Some pos'
                   \<and> portfolioHistory traded = portfolioHistory pos
                   \<and> (u \<notin> fst ` set (bids data) \<longrightarrow> traded = pos)
                   \<and> (\<forall>p. distinct (map fst (bids data)) \<and> (u, p) \<in> set (bids data) \<longrightarrow>
                         traded =
                           (if (if currentPromptType data = SellCall then marketPrice ?d' \<le> p
                                else p \<le> marketPrice ?d')
                            then (if currentPromptType data = SellCall
                                  then pos\<lparr>cash := cash pos - p, calls := calls pos + 1\<rparr>
                                  else pos\<lparr>cash := cash pos + p, calls := calls pos - 1\<rparr>)
                            else pos))
                   \<and> cash pos' = cash traded * (1 + 0.05 / 60)
                   \<and> calls pos' = calls traded
                   \<and> portfolioHistory pos' = portfolioHistory pos @
                        [cash pos' + real_of_int (calls pos') * marketPrice ?d'])"
      unfolding f using processRoundBids_valuation[OF p] by blast
    from ru r2 v show ?thesis by blast
  qed
  have c: "roomsData s2 room2 = None
       \<or> (\<exists>pos'. positionOf s2 room2 u2 = Some pos'
              \<and> prefix (portfolioHistory pos2) (portfolioHistory pos'))"
    if "handle s msg = Inr s2" "room2 \<in> rooms s" "positionOf s room2 u2 = Some pos2"
    using handle_kept[OF that] by (simp add: history_kept_def)
  from a b c show ?thesis by blast
qed

theorem valuation_every_round_and_history_append_only_witness:
  "(\<exists>tr s' data' pos'. roundUpdate ex_server ''adm'' = Inr (tr, s')
       \<and> roomsData s' ''room'' = Some data'
       \<and> obj_get (positions data') ''A'' = Some pos'
       \<and> cash pos' = 88 * (1201 / 1200) \<and> calls pos' = 1
       \<and> portfolioHistory pos' = [100, 88 * (1201 / 1200) + marketPrice data'])
   \<and> (\<exists>s2 pos'. handle ex_round1 (FinalizeGame ''adm'' 120) = Inr s2
       \<and> positionOf s2 ''room'' ''A'' = Some pos'
       \<and> prefix [100] (portfolioHistory pos'))"
proof -
  let ?pos = "\<lparr>cash = 100, calls = 0, portfolioHistory = [100], sharpe = None\<rparr>"
  let ?s2 = "snd (finalizeGame ex_round1 ''adm'' 120)"
  note both = valuation_every_round_and_history_append_only
      [of ex_data ex_server "''adm''" "''room''" "FinalizeGame ''adm'' 120" ?s2 "''room''" "''A''" ?pos]
  have h: "adminToRoom ex_server ''adm'' = Some ''room''" "''room'' \<noteq> []"
    "roomsData ex_server ''room'' = Some ex_data"
    by (simp_all add: ex_server_def)
  have q: "obj_get (positions ex_data) ''A'' = Some ?pos"
    "distinct (map fst (bids ex_data)) \<and> (''A'', 12) \<in> set (bids ex_data)"
    "currentPromptType ex_data = SellCall"
    by (simp_all add: ex_data_def obj_get_def)
  from both h obtain tr s' data' where r: "roundUpdate ex_server ''adm'' = Inr (tr, s')"
    "roomsData s' ''room'' = Some data'"
    and all: "\<forall>u pos. obj_get (positions ex_data) u = Some pos \<longrightarrow>
                (\<exists>traded pos'. obj_get (tradedPositions ex_data) u = Some traded
                   \<and> obj_get (positions data') u = Some pos'
                   \<and> portfolioHistory traded = portfolioHistory pos
                   \<and> (u \<notin> fst ` set (bids ex_data) \<longrightarrow> traded = pos)
                   \<and> (\<forall>p. distinct (map fst (bids ex_data)) \<and> (u, p) \<in> set (bids ex_data) \<longrightarrow>
                         traded =
                           (if (if currentPromptType ex_data = SellCall then marketPrice data' \<le> p
                                else p \<le> marketPrice data')
                            then (if currentPromptType ex_data = SellCall
                                  then pos\<lparr>cash := cash pos - p, calls := calls pos + 1\<rparr>
                                  else pos\<lparr>cash := cash pos + p, calls := calls pos - 1\<rparr>)
                            else pos))
                   \<and> cash pos' = cash traded * (1 + 0.05 / 60)
                   \<and> calls pos' = calls traded
                   \<and> portfolioHistory pos' = portfolioHistory pos @
                        [cash pos' + real_of_int (calls pos') * marketPrice data'])"
    by blast
  have mp: "marketPrice data' = 10"
    using r
    by (simp add: ex_server_def ex_data_def roundUpdate_def processRoundBids_def sortBids_def
        js_sort_def js_index_def medianIndex_def Let_def split: prod.splits)
       auto
  from all q(1) obtain traded pos' where t: "obj_get (positions data') ''A'' = Some pos'"
    "\<forall>p. distinct (map fst (bids ex_data)) \<and> (''A'', p) \<in> set (bids ex_data) \<longrightarrow>
         traded =
           (if (if currentPromptType ex_data = SellCall then marketPrice data' \<le> p
                else p \<le> marketPrice data')
            then (if currentPromptType ex_data = SellCall
                  then ?pos\<lparr>cash := cash ?pos - p, calls := calls ?pos + 1\<rparr>
                  else ?pos\<lparr>cash := cash ?pos + p, calls := calls ?pos - 1\<rparr>)
            else ?pos)"
    "cash pos' = cash traded * (1 + 0.05 / 60)" "calls pos' = calls traded"
    "portfolioHistory pos' = portfolioHistory ?pos @
        [cash pos' + real_of_int (calls pos') * marketPrice data']"
    by blast
  from t(2) q(2,3) mp have tr: "traded = ?pos\<lparr>cash := 88, calls := 1\<rparr>"
    by auto
  have first: "\<exists>tr s' data' pos'. roundUpdate ex_server ''adm'' = Inr (tr, s')
       \<and> roomsData s' ''room'' = Some data'
       \<and> obj_get (positions data') ''A'' = Some pos'
       \<and> cash pos' = 88 * (1201 / 1200) \<and> calls pos' = 1
       \<and> portfolioHistory pos' = [100, 88 * (1201 / 1200) + marketPrice data']"
    using r t(1,3,4,5) tr
    by (intro exI[of _ tr] exI[of _ s'] exI[of _ data'] exI[of _ pos']) simp
  have g: "handle ex_round1 (FinalizeGame ''adm'' 120) = Inr ?s2"
    "''room'' \<in> rooms ex_round1"
    "positionOf ex_round1 ''room'' ''A'' = Some ?pos"
    "roomsData ?s2 ''room'' \<noteq> None"
    by (simp_all add: ex_round1_eval positionOf_def obj_get_def finalizeGame_def Let_def)
  note third = valuation_every_round_and_history_append_only
      [of ex_data ex_round1 "''adm''" "''room''" "FinalizeGame ''adm'' 120" ?s2 "''room''" "''A''"
          ?pos, THEN conjunct2, THEN conjunct2, rule_format]
  from third[OF conjI[OF g(1) conjI[OF g(2) g(3)]]] g(4)
  have "\<exists>pos'. positionOf ?s2 ''room'' ''A'' = Some pos'
                 \<and> prefix (portfolioHistory ?pos) (portfolioHistory pos')"
    by blast
  with g(1) have second: "\<exists>s2 pos'. handle ex_round1 (FinalizeGame ''adm'' 120) = Inr s2
       \<and> positionOf s2 ''room'' ''A'' = Some pos'
       \<and> prefix [100] (portfolioHistory pos')"
    by auto
  from first second show ?thesis by blast
qed

text \<open>
  Claim C10.  \<open>join-room\<close> with the empty username replies \<open>noSuchRoom\<close> and changes
  nothing, whether or not the room exists.  (The username is a string; the empty string is
  its only falsy value.)
\<close>

theorem join_room_empty_username:
  "join_room s room [] userID = (Some NoSuchRoom, s)"
  by (simp add: join_room_def)

theorem join_room_empty_username_witness:
  "''room'' \<in> rooms ex_server
   \<and> join_room ex_server ''room'' [] ''Z'' = (Some NoSuchRoom, ex_server)"
  using join_room_empty_username [of ex_server "''room''" "''Z''"]
  by (simp add: ex_server_def)

end
